theory Spec2Isabelle
  imports Complex_Main "HOL-Library.AList"
begin

section \<open>Errors and settlements\<close>

text \<open>
  The error objects of \<^verbatim>\<open>errorDefinitions\<close> and \<^verbatim>\<open>createAbortError\<close>. The free text of a
  message built from a template string is left out; the data the template is filled with
  is kept as constructor arguments.
\<close>

datatype amqp_error = AmqpError string string

datatype err =
    AbortError string
  | OperationTimeoutError string
  | InsufficientCreditError
  | SendOperationFailedError string "amqp_error option"
  | PlainError string
  | ProtocolError "amqp_error option"
  | Undefined

text \<open>\<^verbatim>\<open>createAbortError(errorMessage)\<close> of \<^verbatim>\<open>util/utils.js\<close>.\<close>

definition createAbortError :: "string \<Rightarrow> err" where
  "createAbortError errorMessage = AbortError errorMessage"

text \<open>One invocation of a promise executor's \<^verbatim>\<open>resolve\<close> or \<^verbatim>\<open>reject\<close>.\<close>

datatype 'v outcome = Resolved 'v | Rejected err

section \<open>AwaitableSender\<close>

text \<open>
  A \<^verbatim>\<open>PromiseLike\<close> entry of the \<^verbatim>\<open>deliveryDispositionMap\<close>. Its \<^verbatim>\<open>resolve\<close> and
  \<^verbatim>\<open>reject\<close> closures capture the promise of the \<^verbatim>\<open>send()\<close> call and the abort signal of
  that call; \<^verbatim>\<open>timer\<close> is the handle returned by \<^verbatim>\<open>setTimeout\<close>.
\<close>

record pending_send =
  p_call :: nat
  p_signal :: "nat option"
  p_timer :: nat

text \<open>
  An active timer started by \<^verbatim>\<open>send()\<close>: its delay in milliseconds and the delivery id
  and promise captured by its callback.
\<close>

record timer_entry =
  t_delay :: real
  t_delivery :: nat
  t_call :: nat

record send_options =
  timeoutInSeconds :: "real option"
  abortSignal :: "nat option"

record awaitable_sender_options =
  opt_sendTimeoutInSeconds :: "real option"
  opt_onError :: bool
  opt_onSessionError :: bool

datatype sender_handler =
    H_accepted | H_rejected | H_released | H_modified | H_senderError | H_sessionError

text \<open>
  The sender together with the parts of its environment that \<^verbatim>\<open>send()\<close> and its
  handlers touch: the listeners the constructor installs on the sender and on its session,
  the active timers, the listeners on abort signals, the signals that have fired, the log
  of every \<^verbatim>\<open>resolve\<close>/\<^verbatim>\<open>reject\<close> invocation, and the log of protocol-level sends.
\<close>

record sender_world =
  deliveryDispositionMap :: "(nat \<times> pending_send) list"
  sendTimeoutInSeconds :: real
  sender_listeners :: "(string \<times> sender_handler) list"
  session_listeners :: "(string \<times> sender_handler) list"
  link_sendable :: bool
  timers :: "(nat \<times> timer_entry) list"
  abort_listeners :: "(nat \<times> nat) list"
  aborted :: "nat set"
  settlements :: "(nat \<times> nat outcome) list"
  sent :: "(nat \<times> nat \<times> string) list"
  next_delivery :: nat
  next_timer :: nat
  next_call :: nat

text \<open>
  The constructor: an empty map, \<^verbatim>\<open>options.sendTimeoutInSeconds || 20\<close>, the four
  disposition listeners, and the two error listeners unless the caller supplied its own.
\<close>

definition new_AwaitableSender :: "awaitable_sender_options \<Rightarrow> sender_world" where
  "new_AwaitableSender options =
     \<lparr> deliveryDispositionMap = [],
       sendTimeoutInSeconds =
         (case opt_sendTimeoutInSeconds options of
            None \<Rightarrow> 20
          | Some t \<Rightarrow> if t = 0 then 20 else t),
       sender_listeners =
         [(''accepted'', H_accepted), (''rejected'', H_rejected),
          (''released'', H_released), (''modified'', H_modified)]
         @ (if \<not> opt_onError options then [(''sender_error'', H_senderError)] else []),
       session_listeners =
         (if \<not> opt_onSessionError options then [(''session_error'', H_sessionError)] else []),
       link_sendable = False,
       timers = [],
       abort_listeners = [],
       aborted = {},
       settlements = [],
       sent = [],
       next_delivery = 0,
       next_timer = 0,
       next_call = 0 \<rparr>"

subsection \<open>Timers, abort listeners, promise callbacks\<close>

definition setTimeout :: "timer_entry \<Rightarrow> sender_world \<Rightarrow> sender_world" where
  "setTimeout te w =
     w\<lparr> timers := timers w @ [(next_timer w, te)], next_timer := Suc (next_timer w) \<rparr>"

definition clearTimeout :: "nat \<Rightarrow> sender_world \<Rightarrow> sender_world" where
  "clearTimeout h w = w\<lparr> timers := AList.delete h (timers w) \<rparr>"

definition map_delete :: "nat \<Rightarrow> sender_world \<Rightarrow> sender_world" where
  "map_delete i w = w\<lparr> deliveryDispositionMap := AList.delete i (deliveryDispositionMap w) \<rparr>"

definition map_set :: "nat \<Rightarrow> pending_send \<Rightarrow> sender_world \<Rightarrow> sender_world" where
  "map_set i p w = w\<lparr> deliveryDispositionMap := AList.update i p (deliveryDispositionMap w) \<rparr>"

definition settle :: "nat \<Rightarrow> nat outcome \<Rightarrow> sender_world \<Rightarrow> sender_world" where
  "settle c out w = w\<lparr> settlements := settlements w @ [(c, out)] \<rparr>"

text \<open>\<^verbatim>\<open>removeAbortListener\<close>: only when the call had an abort signal.\<close>

definition removeAbortListener :: "nat option \<Rightarrow> nat \<Rightarrow> sender_world \<Rightarrow> sender_world" where
  "removeAbortListener sig i w =
     (case sig of
        None \<Rightarrow> w
      | Some s \<Rightarrow> w\<lparr> abort_listeners := remove1 (s, i) (abort_listeners w) \<rparr>)"

text \<open>The \<^verbatim>\<open>resolve\<close> and \<^verbatim>\<open>reject\<close> closures stored in the map entry.\<close>

definition promise_resolve :: "pending_send \<Rightarrow> nat \<Rightarrow> sender_world \<Rightarrow> sender_world" where
  "promise_resolve p i w = removeAbortListener (p_signal p) i (settle (p_call p) (Resolved i) w)"

definition promise_reject :: "pending_send \<Rightarrow> nat \<Rightarrow> err \<Rightarrow> sender_world \<Rightarrow> sender_world" where
  "promise_reject p i e w = removeAbortListener (p_signal p) i (settle (p_call p) (Rejected e) w)"

subsection \<open>The handlers of the constructor\<close>

definition onSendSuccess :: "nat \<Rightarrow> sender_world \<Rightarrow> sender_world" where
  "onSendSuccess i w =
     (case map_of (deliveryDispositionMap w) i of
        None \<Rightarrow> w
      | Some p \<Rightarrow> promise_resolve p i (map_delete i (clearTimeout (p_timer p) w)))"

definition onSendFailure :: "string \<Rightarrow> nat \<Rightarrow> amqp_error option \<Rightarrow> sender_world \<Rightarrow> sender_world" where
  "onSendFailure eventName i error w =
     (case map_of (deliveryDispositionMap w) i of
        None \<Rightarrow> w
      | Some p \<Rightarrow>
          promise_reject p i (SendOperationFailedError eventName error)
            (map_delete i (clearTimeout (p_timer p) w)))"

text \<open>
  \<^verbatim>\<open>onError\<close> walks the keys of the map and calls \<^verbatim>\<open>onSendFailure\<close> on each. The walk in
  the source is over the live map while \<^verbatim>\<open>onSendFailure\<close> deletes the key being visited;
  nothing is inserted meanwhile, so it visits the keys present at the start, in insertion
  order.
\<close>

definition onError :: "string \<Rightarrow> amqp_error option \<Rightarrow> sender_world \<Rightarrow> sender_world" where
  "onError eventName error w =
     fold (\<lambda>i. onSendFailure eventName i error) (map fst (deliveryDispositionMap w)) w"

text \<open>
  The context of an event emitted on the sender or its session: the delivery id and the
  error of its remote state for a disposition, the error of the link or session for an
  error event.
\<close>

record event_context =
  ctx_delivery :: nat
  ctx_error :: "amqp_error option"

fun run_handler :: "sender_handler \<Rightarrow> event_context \<Rightarrow> sender_world \<Rightarrow> sender_world" where
  "run_handler H_accepted ctx w = onSendSuccess (ctx_delivery ctx) w"
| "run_handler H_rejected ctx w = onSendFailure ''rejected'' (ctx_delivery ctx) (ctx_error ctx) w"
| "run_handler H_released ctx w = onSendFailure ''released'' (ctx_delivery ctx) (ctx_error ctx) w"
| "run_handler H_modified ctx w = onSendFailure ''modified'' (ctx_delivery ctx) (ctx_error ctx) w"
| "run_handler H_senderError ctx w = onError ''sender_error'' (ctx_error ctx) w"
| "run_handler H_sessionError ctx w = onError ''session_error'' (ctx_error ctx) w"

text \<open>Emitting an event runs the listeners registered under its name, in registration order.\<close>

definition emit_on ::
  "(string \<times> sender_handler) list \<Rightarrow> string \<Rightarrow> event_context \<Rightarrow> sender_world \<Rightarrow> sender_world" where
  "emit_on ls eventName ctx w =
     fold (\<lambda>h. run_handler h ctx) (map snd (filter (\<lambda>l. fst l = eventName) ls)) w"

definition sender_emit :: "string \<Rightarrow> event_context \<Rightarrow> sender_world \<Rightarrow> sender_world" where
  "sender_emit eventName ctx w = emit_on (sender_listeners w) eventName ctx w"

definition session_emit :: "string \<Rightarrow> event_context \<Rightarrow> sender_world \<Rightarrow> sender_world" where
  "session_emit eventName ctx w = emit_on (session_listeners w) eventName ctx w"

subsection \<open>send\<close>

text \<open>
  The deadline of one call: the sender's default, replaced by the per-call value when that
  is a number greater than zero.
\<close>

definition send_timeout :: "sender_world \<Rightarrow> real option \<Rightarrow> real" where
  "send_timeout w timeoutSecs =
     (case timeoutSecs of
        None \<Rightarrow> sendTimeoutInSeconds w
      | Some t \<Rightarrow> if t > 0 then t else sendTimeoutInSeconds w)"

text \<open>
  Modelled from the spec: the protocol engine's \<^verbatim>\<open>link.send\<close>, which is not part of this
  repository. It assigns the delivery id at send time, unique per send: here the next value
  of a counter. It always returns its delivery; a send that throws is not modelled.
\<close>

definition link_send :: "nat \<Rightarrow> string \<Rightarrow> sender_world \<Rightarrow> sender_world" where
  "link_send c msg w =
     w\<lparr> sent := sent w @ [(next_delivery w, c, msg)], next_delivery := Suc (next_delivery w) \<rparr>"

text \<open>\<^verbatim>\<open>options && options.abortSignal\<close> and \<^verbatim>\<open>options && options.timeoutInSeconds\<close>.\<close>

definition signal_of :: "send_options option \<Rightarrow> nat option" where
  "signal_of options = (case options of None \<Rightarrow> None | Some opts \<Rightarrow> abortSignal opts)"

definition timeout_of :: "send_options option \<Rightarrow> real option" where
  "timeout_of options = (case options of None \<Rightarrow> None | Some opts \<Rightarrow> timeoutInSeconds opts)"

text \<open>\<^verbatim>\<open>abortSignal && abortSignal.aborted\<close>.\<close>

definition already_aborted :: "nat set \<Rightarrow> nat option \<Rightarrow> bool" where
  "already_aborted fired sig = (case sig of None \<Rightarrow> False | Some s \<Rightarrow> s \<in> fired)"

definition send :: "string \<Rightarrow> send_options option \<Rightarrow> sender_world \<Rightarrow> sender_world" where
  "send msg options w0 =
     (let c = next_call w0;
          w = w0\<lparr> next_call := Suc c \<rparr>;
          abortSig = signal_of options;
          timeoutSecs = timeout_of options
      in if already_aborted (aborted w) abortSig
         then settle c (Rejected (createAbortError ''Send request has been cancelled.'')) w
         else if link_sendable w
         then
           (let timer = next_timer w;
                i = next_delivery w;
                w1 = setTimeout \<lparr> t_delay = send_timeout w timeoutSecs * 1000,
                                 t_delivery = i, t_call = c \<rparr> w;
                w2 = link_send c msg w1;
                w3 = map_set i \<lparr> p_call = c, p_signal = abortSig, p_timer = timer \<rparr> w2
            in case abortSig of
                 None \<Rightarrow> w3
               | Some s \<Rightarrow> w3\<lparr> abort_listeners := abort_listeners w3 @ [(s, i)] \<rparr>)
         else settle c (Rejected InsufficientCreditError) w)"

text \<open>
  The timer callback of \<^verbatim>\<open>send()\<close>: it deletes the map entry and calls the promise's own
  \<^verbatim>\<open>reject\<close>, not the one stored in the map entry. Only an active timer fires, and it fires
  once.
\<close>

definition timer_fires :: "nat \<Rightarrow> sender_world \<Rightarrow> sender_world" where
  "timer_fires h w =
     (case map_of (timers w) h of
        None \<Rightarrow> w
      | Some te \<Rightarrow>
          settle (t_call te) (Rejected (OperationTimeoutError ''send''))
            (map_delete (t_delivery te) (clearTimeout h w)))"

text \<open>The \<^verbatim>\<open>onAbort\<close> closure of the call that sent delivery \<open>i\<close>.\<close>

definition onAbort :: "nat \<Rightarrow> sender_world \<Rightarrow> sender_world" where
  "onAbort i w =
     (case map_of (deliveryDispositionMap w) i of
        None \<Rightarrow> w
      | Some p \<Rightarrow>
          promise_reject p i (createAbortError ''Send request has been cancelled.'')
            (map_delete i (clearTimeout (p_timer p) w)))"

text \<open>
  An abort signal fires once; it then reads as aborted and calls the listeners registered
  on it.
\<close>

definition abort_fires :: "nat \<Rightarrow> sender_world \<Rightarrow> sender_world" where
  "abort_fires s w =
     (if s \<in> aborted w then w
      else fold (\<lambda>l. onAbort (snd l)) (filter (\<lambda>l. fst l = s) (abort_listeners w))
             (w\<lparr> aborted := insert s (aborted w) \<rparr>))"

text \<open>The delays of the active timers, in the order they were started.\<close>

definition timer_delays :: "sender_world \<Rightarrow> real list" where
  "timer_delays w = map (\<lambda>x. t_delay (snd x)) (timers w)"

subsection \<open>Runs of an AwaitableSender\<close>

text \<open>
  What can happen to a sender between two points in time: a call of \<^verbatim>\<open>send()\<close>, an event
  emitted on the sender or on its session, an active timer firing, an abort signal firing,
  the protocol engine changing what \<^verbatim>\<open>sendable()\<close> returns.
\<close>

datatype sender_step =
    Send string "send_options option"
  | Sender_event string event_context
  | Session_event string event_context
  | Timer_fires nat
  | Abort_fires nat
  | Flow bool

fun step :: "sender_step \<Rightarrow> sender_world \<Rightarrow> sender_world" where
  "step (Send msg options) w = send msg options w"
| "step (Sender_event eventName ctx) w = sender_emit eventName ctx w"
| "step (Session_event eventName ctx) w = session_emit eventName ctx w"
| "step (Timer_fires h) w = timer_fires h w"
| "step (Abort_fires s) w = abort_fires s w"
| "step (Flow b) w = w\<lparr> link_sendable := b \<rparr>"

definition run :: "sender_step list \<Rightarrow> awaitable_sender_options \<Rightarrow> sender_world" where
  "run steps options = fold step steps (new_AwaitableSender options)"

text \<open>
  The protocol-level sends whose promise has no settlement yet, as pairs of delivery id and
  call, and those whose promise has one.
\<close>

definition awaiting_sends :: "sender_world \<Rightarrow> (nat \<times> nat) list" where
  "awaiting_sends w =
     map (\<lambda>x. (fst x, fst (snd x)))
       (filter (\<lambda>x. fst (snd x) \<notin> fst ` set (settlements w)) (sent w))"

definition awaiting :: "sender_world \<Rightarrow> nat list" where
  "awaiting w = map fst (awaiting_sends w)"

definition terminated :: "sender_world \<Rightarrow> nat list" where
  "terminated w =
     map fst (filter (\<lambda>x. fst (snd x) \<in> fst ` set (settlements w)) (sent w))"

text \<open>The settlements of one call.\<close>

definition settlements_of :: "sender_world \<Rightarrow> nat \<Rightarrow> nat outcome list" where
  "settlements_of w c = map snd (filter (\<lambda>x. fst x = c) (settlements w))"

text \<open>A sender with default options and credit to send.\<close>

definition default_options :: awaitable_sender_options where
  "default_options =
     \<lparr> opt_sendTimeoutInSeconds = None, opt_onError = False, opt_onSessionError = False \<rparr>"

definition sendable_sender :: sender_world where
  "sendable_sender = (new_AwaitableSender default_options)\<lparr> link_sendable := True \<rparr>"

subsection \<open>The invariant of a run\<close>

definition timer_triples :: "sender_world \<Rightarrow> (nat \<times> nat \<times> nat) list" where
  "timer_triples w = map (\<lambda>x. (fst x, t_delivery (snd x), t_call (snd x))) (timers w)"

definition map_triples :: "sender_world \<Rightarrow> (nat \<times> nat \<times> nat) list" where
  "map_triples w = map (\<lambda>x. (p_timer (snd x), fst x, p_call (snd x))) (deliveryDispositionMap w)"

definition sender_inv :: "sender_world \<Rightarrow> bool" where
  "sender_inv w \<longleftrightarrow>
     timer_triples w = map_triples w
     \<and> map snd (map_triples w) = awaiting_sends w
     \<and> distinct (map fst (timers w))
     \<and> distinct (map fst (sent w))
     \<and> distinct (map (\<lambda>x. fst (snd x)) (sent w))
     \<and> distinct (map fst (settlements w))
     \<and> list_all (\<lambda>h. h < next_timer w) (map fst (timers w))
     \<and> list_all (\<lambda>x. fst x < next_delivery w \<and> fst (snd x) < next_call w) (sent w)
     \<and> list_all (\<lambda>c. c < next_call w) (map fst (settlements w))"

definition example_steps :: "sender_step list" where
  "example_steps =
     [Flow True,
      Send ''a'' None,
      Send ''b'' (Some \<lparr> timeoutInSeconds = Some 5, abortSignal = Some 7 \<rparr>),
      Send ''c'' None,
      Sender_event ''accepted'' \<lparr> ctx_delivery = 0, ctx_error = None \<rparr>,
      Abort_fires 7,
      Timer_fires 2]"

definition rejection_of :: "string \<Rightarrow> amqp_error option \<Rightarrow> nat \<times> pending_send \<Rightarrow> nat \<times> nat outcome" where
  "rejection_of eventName error x = (p_call (snd x), Rejected (SendOperationFailedError eventName error))"

text \<open>
  Delivery \<open>i\<close> has no map entry, no active timer, and no send that still awaits its
  settlement.
\<close>

definition cleared :: "nat \<Rightarrow> sender_world \<Rightarrow> bool" where
  "cleared i w =
     (i \<notin> set (map fst (deliveryDispositionMap w))
      \<and> i \<notin> set (map (\<lambda>x. t_delivery (snd x)) (timers w))
      \<and> i \<notin> set (awaiting w))"

text \<open>
  Every map entry of a call that had an abort signal has its \<^verbatim>\<open>onAbort\<close> registered on that
  signal, and that signal has not fired.
\<close>

definition listening :: "sender_world \<Rightarrow> bool" where
  "listening w =
     list_all
       (\<lambda>e. case p_signal (snd e) of
              None \<Rightarrow> True
            | Some s \<Rightarrow> (s, fst e) \<in> set (abort_listeners w))
       (deliveryDispositionMap w)"

definition unfired :: "sender_world \<Rightarrow> bool" where
  "unfired w =
     list_all
       (\<lambda>e. case p_signal (snd e) of None \<Rightarrow> True | Some s \<Rightarrow> s \<notin> aborted w)
       (deliveryDispositionMap w)"

text \<open>Runs and options used to exercise the theorems below.\<close>

definition two_pending_steps :: "sender_step list" where
  "two_pending_steps =
     [Flow True,
      Send ''a'' None,
      Send ''b'' (Some \<lparr> timeoutInSeconds = Some 5, abortSignal = Some 7 \<rparr>)]"

definition own_handlers_options :: awaitable_sender_options where
  "own_handlers_options =
     \<lparr> opt_sendTimeoutInSeconds = None, opt_onError = True, opt_onSessionError = True \<rparr>"

definition link_error_context :: event_context where
  "link_error_context =
     \<lparr> ctx_delivery = 0, ctx_error = Some (AmqpError ''amqp:link:detach-forced'' ''gone'') \<rparr>"

definition short_timeout_options :: "send_options option" where
  "short_timeout_options = Some \<lparr> timeoutInSeconds = Some 5, abortSignal = None \<rparr>"

definition rejected_0 :: event_context where
  "rejected_0 = \<lparr> ctx_delivery = 0, ctx_error = None \<rparr>"

definition timeout_steps :: "sender_step list" where
  "timeout_steps =
     [Flow True,
      Send ''m'' (Some \<lparr> timeoutInSeconds = None, abortSignal = Some 7 \<rparr>),
      Timer_fires 0]"

definition accepted_steps :: "sender_step list" where
  "accepted_steps =
     [Flow True,
      Send ''m'' (Some \<lparr> timeoutInSeconds = None, abortSignal = Some 7 \<rparr>),
      Sender_event ''accepted'' \<lparr> ctx_delivery = 0, ctx_error = None \<rparr>]"

section \<open>Connection and Session\<close>

text \<open>
  The objects that carry listeners: the protocol engine's connection, sessions and links,
  and the wrappers of this library around them.
\<close>

datatype emitter =
    RheaConnection | RheaSession nat | RheaLink nat
  | ConnectionObj | SessionObj nat | LinkObj nat

datatype op_kind =
    ConnectionOpen | ConnectionClose | CreateSession | SessionClose | CreateReceiver | CreateSender

datatype role = OnOpen | OnClose | OnErrorH | OnDisconnected | OnAbort | ActionAfterTimeout

text \<open>
  What the closures of one guarded operation share: the promise they settle, the abort
  signal of the call, the \<^verbatim>\<open>waitTimer\<close>, and the session or link the operation is about.
\<close>

record guard =
  g_kind :: op_kind
  g_promise :: nat
  g_signal :: "nat option"
  g_timer :: nat
  g_target :: nat

text \<open>
  A function registered as a listener or passed to \<^verbatim>\<open>setTimeout\<close>: a closure of a guarded
  operation, a re-emitting listener installed by \<^verbatim>\<open>_initializeEventListeners\<close>, the \<^verbatim>\<open>emit\<close>
  closure of \<^verbatim>\<open>emitEvent\<close>, or a handler whose code is outside these files (the caller's,
  or the AwaitableSender's own, modelled above).
\<close>

datatype listener =
    Guard role guard
  | ReEmit emitter string
  | EmitLater emitter string
  | Handler string

datatype engine_call =
    Connect | ConnectionCloseCall | CreateSessionCall nat | Begin nat | SessionCloseCall nat
  | AttachReceiver nat nat | AttachSender nat nat | LinkCloseCall nat

datatype result = TheConnection | TheSession nat | TheLink nat | Void

text \<open>
  The context the engine passes to a listener: \<^verbatim>\<open>context.error\<close>,
  \<^verbatim>\<open>context.connection.error\<close>, \<^verbatim>\<open>context.session.error\<close> and the error of
  \<^verbatim>\<open>context.receiver\<close> or \<^verbatim>\<open>context.sender\<close>.
\<close>

record rhea_context =
  c_error :: "err option"
  c_connection_error :: "err option"
  c_session_error :: "err option"
  c_link_error :: "err option"

record world =
  conn_is_open :: bool
  open_sessions :: "nat set"
  operationTimeoutInSeconds :: real
  listeners :: "(emitter \<times> string \<times> bool \<times> listener) list"
  timeouts :: "(nat \<times> real option \<times> listener) list"
  next_timeout :: nat
  signals_fired :: "nat set"
  signal_listeners :: "(nat \<times> listener) list"
  outcomes :: "(nat \<times> result outcome) list"
  next_promise :: nat
  engine_calls :: "engine_call list"
  actionInitiated :: "emitter \<Rightarrow> int"
  next_object :: nat
  emitted :: "(emitter \<times> string) list"
  subscriptions :: "(emitter \<times> string) list"

subsection \<open>Event emitters, timers, abort signals, promises\<close>

text \<open>
  Modelled from the spec: the event-subscription capability of the protocol engine's
  objects (\<^verbatim>\<open>on\<close>, \<^verbatim>\<open>once\<close>, \<^verbatim>\<open>removeListener\<close>, \<^verbatim>\<open>emit\<close>), which is not part of this
  repository. Listeners are kept in registration order; a \<^verbatim>\<open>once\<close> registration carries
  the flag \<open>True\<close>; \<^verbatim>\<open>removeListener\<close> removes the most recent registration of the function
  under the event, whether made by \<^verbatim>\<open>on\<close> or by \<^verbatim>\<open>once\<close>. The field \<open>subscriptions\<close> keeps
  the history of \<^verbatim>\<open>on\<close> and \<^verbatim>\<open>once\<close> calls, so that a registration undone later in the same
  call stays visible.
\<close>

definition on_event :: "emitter \<Rightarrow> string \<Rightarrow> listener \<Rightarrow> world \<Rightarrow> world" where
  "on_event em ev f w =
     w\<lparr> listeners := listeners w @ [(em, ev, False, f)],
        subscriptions := subscriptions w @ [(em, ev)] \<rparr>"

definition once :: "emitter \<Rightarrow> string \<Rightarrow> listener \<Rightarrow> world \<Rightarrow> world" where
  "once em ev f w =
     w\<lparr> listeners := listeners w @ [(em, ev, True, f)],
        subscriptions := subscriptions w @ [(em, ev)] \<rparr>"

fun remove_first :: "('a \<Rightarrow> bool) \<Rightarrow> 'a list \<Rightarrow> 'a list" where
  "remove_first P [] = []"
| "remove_first P (x # xs) = (if P x then xs else x # remove_first P xs)"

definition remove_last :: "('a \<Rightarrow> bool) \<Rightarrow> 'a list \<Rightarrow> 'a list" where
  "remove_last P xs = rev (remove_first P (rev xs))"

definition registered ::
  "emitter \<Rightarrow> string \<Rightarrow> listener \<Rightarrow> emitter \<times> string \<times> bool \<times> listener \<Rightarrow> bool" where
  "registered em ev f r = (fst r = em \<and> fst (snd r) = ev \<and> snd (snd (snd r)) = f)"

definition removeListener :: "emitter \<Rightarrow> string \<Rightarrow> listener \<Rightarrow> world \<Rightarrow> world" where
  "removeListener em ev f w = w\<lparr> listeners := remove_last (registered em ev f) (listeners w) \<rparr>"

definition removeAllListeners :: "emitter \<Rightarrow> world \<Rightarrow> world" where
  "removeAllListeners em w = w\<lparr> listeners := filter (\<lambda>r. fst r \<noteq> em) (listeners w) \<rparr>"

definition set_timeout :: "real option \<Rightarrow> listener \<Rightarrow> world \<Rightarrow> world" where
  "set_timeout delay f w =
     w\<lparr> timeouts := timeouts w @ [(next_timeout w, delay, f)],
        next_timeout := Suc (next_timeout w) \<rparr>"

definition clear_timeout :: "nat \<Rightarrow> world \<Rightarrow> world" where
  "clear_timeout h w = w\<lparr> timeouts := filter (\<lambda>t. fst t \<noteq> h) (timeouts w) \<rparr>"

definition add_abort_listener :: "nat \<Rightarrow> listener \<Rightarrow> world \<Rightarrow> world" where
  "add_abort_listener s f w = w\<lparr> signal_listeners := signal_listeners w @ [(s, f)] \<rparr>"

definition remove_abort_listener :: "nat option \<Rightarrow> listener \<Rightarrow> world \<Rightarrow> world" where
  "remove_abort_listener sig f w =
     (case sig of
        None \<Rightarrow> w
      | Some s \<Rightarrow> w\<lparr> signal_listeners := remove1 (s, f) (signal_listeners w) \<rparr>)"

definition resolve :: "nat \<Rightarrow> result \<Rightarrow> world \<Rightarrow> world" where
  "resolve p v w = w\<lparr> outcomes := outcomes w @ [(p, Resolved v)] \<rparr>"

definition reject :: "nat \<Rightarrow> err \<Rightarrow> world \<Rightarrow> world" where
  "reject p e w = w\<lparr> outcomes := outcomes w @ [(p, Rejected e)] \<rparr>"

definition add_action :: "emitter \<Rightarrow> int \<Rightarrow> world \<Rightarrow> world" where
  "add_action em d w = w\<lparr> actionInitiated := (actionInitiated w)(em := actionInitiated w em + d) \<rparr>"

text \<open>
  Modelled from the spec: the protocol engine's actions, which are not part of this
  repository. The model records each call; a local \<^verbatim>\<open>close()\<close> makes \<^verbatim>\<open>is_open()\<close> of the
  object false at once, as the repository's tests of an aborted \<^verbatim>\<open>session.close()\<close> expect.
\<close>

definition engine :: "engine_call \<Rightarrow> world \<Rightarrow> world" where
  "engine c w =
     (let w' = w\<lparr> engine_calls := engine_calls w @ [c] \<rparr>
      in case c of
           ConnectionCloseCall \<Rightarrow> w'\<lparr> conn_is_open := False \<rparr>
         | SessionCloseCall n \<Rightarrow> w'\<lparr> open_sessions := open_sessions w' - {n} \<rparr>
         | _ \<Rightarrow> w')"

subsection \<open>emitEvent\<close>

text \<open>\<^verbatim>\<open>s.indexOf(pat)\<close>: the index of the first occurrence of \<open>pat\<close> in \<open>s\<close>, or \<open>-1\<close>.\<close>

fun indexOf_from :: "nat \<Rightarrow> string \<Rightarrow> string \<Rightarrow> int" where
  "indexOf_from i [] pat = (if pat = [] then int i else - 1)"
| "indexOf_from i (c # cs) pat =
     (if take (length pat) (c # cs) = pat then int i else indexOf_from (Suc i) cs pat)"

definition indexOf :: "string \<Rightarrow> string \<Rightarrow> int" where
  "indexOf s pat = indexOf_from 0 s pat"

text \<open>
  The \<^verbatim>\<open>emit\<close> closure of \<^verbatim>\<open>emitEvent\<close>: the wrapper emits the event with the translated
  context. The listeners on a wrapper are handlers outside these files, so the emission is
  recorded.
\<close>

definition emit_translated :: "emitter \<Rightarrow> string \<Rightarrow> world \<Rightarrow> world" where
  "emit_translated em ev w = w\<lparr> emitted := emitted w @ [(em, ev)] \<rparr>"

definition emitEvent :: "emitter \<Rightarrow> string \<Rightarrow> world \<Rightarrow> world" where
  "emitEvent em eventName w =
     (if indexOf eventName ''error'' \<noteq> - 1 \<and> actionInitiated w em > 0
      then set_timeout None (EmitLater em eventName) w
      else emit_translated em eventName w)"

subsection \<open>The closures of the guarded operations\<close>

text \<open>
  \<^verbatim>\<open>Connection.open\<close>, \<^verbatim>\<open>Connection.close\<close>, \<^verbatim>\<open>Connection.createSession\<close>,
  \<^verbatim>\<open>Session.close\<close>, \<^verbatim>\<open>Session.createReceiver\<close> and \<^verbatim>\<open>Session._createSender\<close> each declare
  the closures \<^verbatim>\<open>removeListeners\<close>, \<^verbatim>\<open>onOpen\<close> (\<^verbatim>\<open>onSendable\<close> for a sender), \<^verbatim>\<open>onClose\<close>,
  \<^verbatim>\<open>onError\<close> (the two \<^verbatim>\<open>close\<close> operations), \<^verbatim>\<open>onDisconnected\<close>, \<^verbatim>\<open>onAbort\<close> and
  \<^verbatim>\<open>actionAfterTimeout\<close>. A closure is modelled by its role and the \<open>guard\<close> of its operation,
  and each role by one function that follows the body the operation of that kind gives it.
  Calls of the logger are left out.
\<close>

text \<open>The object whose \<^verbatim>\<open>actionInitiated\<close> an operation counts on.\<close>

definition entity_of :: "guard \<Rightarrow> emitter" where
  "entity_of g =
     (case g_kind g of
        ConnectionOpen \<Rightarrow> ConnectionObj
      | ConnectionClose \<Rightarrow> ConnectionObj
      | CreateSession \<Rightarrow> SessionObj (g_target g)
      | SessionClose \<Rightarrow> SessionObj (g_target g)
      | CreateReceiver \<Rightarrow> LinkObj (g_target g)
      | CreateSender \<Rightarrow> LinkObj (g_target g))"

text \<open>
  The three \<^verbatim>\<open>removeListener\<close> calls of \<^verbatim>\<open>removeListeners\<close>, in the source's order.
  \<^verbatim>\<open>Connection.open\<close> registers \<^verbatim>\<open>onClose\<close> for two events. \<^verbatim>\<open>_createSender\<close> registers
  \<^verbatim>\<open>onSendable\<close> under \<^verbatim>\<open>sendable\<close> and removes it under \<^verbatim>\<open>sender_open\<close>.
\<close>

definition removals :: "guard \<Rightarrow> (emitter \<times> string \<times> listener) list" where
  "removals g =
     (case g_kind g of
        ConnectionOpen \<Rightarrow>
          [(RheaConnection, ''connection_open'', Guard OnOpen g),
           (RheaConnection, ''connection_close'', Guard OnClose g),
           (RheaConnection, ''disconnected'', Guard OnClose g)]
      | ConnectionClose \<Rightarrow>
          [(RheaConnection, ''connection_error'', Guard OnErrorH g),
           (RheaConnection, ''connection_close'', Guard OnClose g),
           (RheaConnection, ''disconnected'', Guard OnDisconnected g)]
      | CreateSession \<Rightarrow>
          [(RheaSession (g_target g), ''session_open'', Guard OnOpen g),
           (RheaSession (g_target g), ''session_close'', Guard OnClose g),
           (RheaConnection, ''disconnected'', Guard OnDisconnected g)]
      | SessionClose \<Rightarrow>
          [(RheaSession (g_target g), ''session_error'', Guard OnErrorH g),
           (RheaSession (g_target g), ''session_close'', Guard OnClose g),
           (RheaConnection, ''disconnected'', Guard OnDisconnected g)]
      | CreateReceiver \<Rightarrow>
          [(RheaLink (g_target g), ''receiver_open'', Guard OnOpen g),
           (RheaLink (g_target g), ''receiver_close'', Guard OnClose g),
           (RheaConnection, ''disconnected'', Guard OnDisconnected g)]
      | CreateSender \<Rightarrow>
          [(RheaLink (g_target g), ''sender_open'', Guard OnOpen g),
           (RheaLink (g_target g), ''sender_close'', Guard OnClose g),
           (RheaConnection, ''disconnected'', Guard OnDisconnected g)])"

definition removeListeners :: "guard \<Rightarrow> world \<Rightarrow> world" where
  "removeListeners g w =
     remove_abort_listener (g_signal g) (Guard OnAbort g)
       (fold (\<lambda>r. removeListener (fst r) (fst (snd r)) (snd (snd r))) (removals g)
          (add_action (entity_of g) (- 1) (clear_timeout (g_timer g) w)))"

text \<open>
  \<^verbatim>\<open>Session.close\<close> awaits its promise and then, in a \<^verbatim>\<open>finally\<close> block, removes all
  listeners of the session wrapper; the model does so when the promise is settled.
\<close>

definition settled_hook :: "guard \<Rightarrow> world \<Rightarrow> world" where
  "settled_hook g w =
     (case g_kind g of
        SessionClose \<Rightarrow> removeAllListeners (SessionObj (g_target g)) w
      | _ \<Rightarrow> w)"

definition guard_resolve :: "guard \<Rightarrow> result \<Rightarrow> world \<Rightarrow> world" where
  "guard_resolve g v w = settled_hook g (resolve (g_promise g) v w)"

definition guard_reject :: "guard \<Rightarrow> err \<Rightarrow> world \<Rightarrow> world" where
  "guard_reject g e w = settled_hook g (reject (g_promise g) e w)"

text \<open>\<^verbatim>\<open>undefined\<close> as a rejection reason.\<close>

definition reason :: "err option \<Rightarrow> err" where
  "reason e = (case e of None \<Rightarrow> Undefined | Some x \<Rightarrow> x)"

text \<open>
  \<^verbatim>\<open>context.connection && context.connection.error ? context.connection.error : context.error\<close>.
\<close>

definition disconnect_error :: "rhea_context \<Rightarrow> err option" where
  "disconnect_error ctx =
     (case c_connection_error ctx of Some e \<Rightarrow> Some e | None \<Rightarrow> c_error ctx)"

definition abort_message :: "op_kind \<Rightarrow> string" where
  "abort_message k =
     (case k of
        ConnectionOpen \<Rightarrow> ''Connection open request has been cancelled.''
      | ConnectionClose \<Rightarrow> ''Connection close request has been cancelled.''
      | CreateSession \<Rightarrow> ''Create session request has been cancelled.''
      | SessionClose \<Rightarrow> ''Session close request has been cancelled.''
      | CreateReceiver \<Rightarrow> ''Create receiver request has been cancelled.''
      | CreateSender \<Rightarrow> ''Create sender request has been cancelled.'')"

definition onOpen :: "guard \<Rightarrow> world \<Rightarrow> world" where
  "onOpen g w =
     guard_resolve g
       (case g_kind g of
          ConnectionOpen \<Rightarrow> TheConnection
        | CreateSession \<Rightarrow> TheSession (g_target g)
        | CreateReceiver \<Rightarrow> TheLink (g_target g)
        | CreateSender \<Rightarrow> TheLink (g_target g)
        | _ \<Rightarrow> Void)
       (removeListeners g w)"

definition onClose :: "guard \<Rightarrow> rhea_context \<Rightarrow> world \<Rightarrow> world" where
  "onClose g ctx w =
     (case g_kind g of
        ConnectionOpen \<Rightarrow>
          guard_reject g
            (case c_error ctx of
               Some e \<Rightarrow> e
             | None \<Rightarrow>
                 (case c_connection_error ctx of
                    Some e \<Rightarrow> e
                  | None \<Rightarrow> PlainError ''Failed to connect''))
            (removeListeners g w)
      | ConnectionClose \<Rightarrow> guard_resolve g Void (removeListeners g w)
      | SessionClose \<Rightarrow> guard_resolve g Void (removeListeners g w)
      | CreateSession \<Rightarrow> guard_reject g (reason (c_session_error ctx)) (removeListeners g w)
      | CreateReceiver \<Rightarrow> guard_reject g (reason (c_link_error ctx)) (removeListeners g w)
      | CreateSender \<Rightarrow> guard_reject g (reason (c_link_error ctx)) (removeListeners g w))"

text \<open>\<^verbatim>\<open>onError\<close> of the two \<^verbatim>\<open>close\<close> operations.\<close>

definition close_onError :: "guard \<Rightarrow> rhea_context \<Rightarrow> world \<Rightarrow> world" where
  "close_onError g ctx w =
     (case g_kind g of
        ConnectionClose \<Rightarrow> guard_reject g (reason (c_connection_error ctx)) (removeListeners g w)
      | SessionClose \<Rightarrow> guard_reject g (reason (c_session_error ctx)) (removeListeners g w)
      | _ \<Rightarrow> w)"

text \<open>
  \<^verbatim>\<open>onDisconnected\<close>: the create operations reject with the error of the disconnect; the two
  \<^verbatim>\<open>close\<close> operations remove their listeners and write a log line, and call neither
  \<^verbatim>\<open>resolve\<close> nor \<^verbatim>\<open>reject\<close>. \<^verbatim>\<open>Connection.open\<close> has no such closure: it registers
  \<^verbatim>\<open>onClose\<close> for \<^verbatim>\<open>disconnected\<close>.
\<close>

definition onDisconnected :: "guard \<Rightarrow> rhea_context \<Rightarrow> world \<Rightarrow> world" where
  "onDisconnected g ctx w =
     (case g_kind g of
        ConnectionClose \<Rightarrow> removeListeners g w
      | SessionClose \<Rightarrow> removeListeners g w
      | ConnectionOpen \<Rightarrow> w
      | _ \<Rightarrow> guard_reject g (reason (disconnect_error ctx)) (removeListeners g w))"

definition abort_action :: "guard \<Rightarrow> world \<Rightarrow> world" where
  "abort_action g w =
     (case g_kind g of
        ConnectionOpen \<Rightarrow> engine ConnectionCloseCall w
      | CreateSession \<Rightarrow> engine (SessionCloseCall (g_target g)) w
      | CreateReceiver \<Rightarrow> engine (LinkCloseCall (g_target g)) w
      | CreateSender \<Rightarrow> engine (LinkCloseCall (g_target g)) w
      | _ \<Rightarrow> w)"

definition guard_onAbort :: "guard \<Rightarrow> world \<Rightarrow> world" where
  "guard_onAbort g w =
     guard_reject g (createAbortError (abort_message (g_kind g)))
       (abort_action g (removeListeners g w))"

text \<open>
  \<^verbatim>\<open>actionAfterTimeout\<close>: the operations of Connection reject with a plain \<^verbatim>\<open>Error\<close>, the
  others with an \<^verbatim>\<open>OperationTimeoutError\<close>.
\<close>

definition actionAfterTimeout :: "guard \<Rightarrow> world \<Rightarrow> world" where
  "actionAfterTimeout g w =
     guard_reject g
       (case g_kind g of
          ConnectionOpen \<Rightarrow> PlainError ''Unable to open the amqp connection due to operation timeout.''
        | ConnectionClose \<Rightarrow> PlainError ''Unable to close the amqp connection due to operation timeout.''
        | CreateSession \<Rightarrow> OperationTimeoutError ''createSession''
        | SessionClose \<Rightarrow> OperationTimeoutError ''close''
        | CreateReceiver \<Rightarrow> OperationTimeoutError ''createReceiver''
        | CreateSender \<Rightarrow> OperationTimeoutError ''createSender'')
       (removeListeners g w)"

fun call :: "listener \<Rightarrow> rhea_context \<Rightarrow> world \<Rightarrow> world" where
  "call (Guard OnOpen g) ctx w = onOpen g w"
| "call (Guard OnClose g) ctx w = onClose g ctx w"
| "call (Guard OnErrorH g) ctx w = close_onError g ctx w"
| "call (Guard OnDisconnected g) ctx w = onDisconnected g ctx w"
| "call (Guard OnAbort g) ctx w = guard_onAbort g w"
| "call (Guard ActionAfterTimeout g) ctx w = actionAfterTimeout g w"
| "call (ReEmit em ev) ctx w = emitEvent em ev w"
| "call (EmitLater em ev) ctx w = emit_translated em ev w"
| "call (Handler name) ctx w = w"

text \<open>
  Emitting an event on an object of the engine calls the listeners registered for it at
  that moment, in registration order; a \<^verbatim>\<open>once\<close> registration is removed before its
  function is called.
\<close>

definition invoke :: "rhea_context \<Rightarrow> emitter \<times> string \<times> bool \<times> listener \<Rightarrow> world \<Rightarrow> world" where
  "invoke ctx r w =
     call (snd (snd (snd r))) ctx
       (if fst (snd (snd r))
        then removeListener (fst r) (fst (snd r)) (snd (snd (snd r))) w
        else w)"

definition emit :: "emitter \<Rightarrow> string \<Rightarrow> rhea_context \<Rightarrow> world \<Rightarrow> world" where
  "emit em ev ctx w =
     fold (invoke ctx) (filter (\<lambda>r. fst r = em \<and> fst (snd r) = ev) (listeners w)) w"

definition no_context :: rhea_context where
  "no_context =
     \<lparr> c_error = None, c_connection_error = None, c_session_error = None, c_link_error = None \<rparr>"

text \<open>An active timeout fires once and calls its function.\<close>

definition timeout_fires :: "nat \<Rightarrow> world \<Rightarrow> world" where
  "timeout_fires h w =
     (case map_of (timeouts w) h of
        None \<Rightarrow> w
      | Some t \<Rightarrow> call (snd t) no_context (clear_timeout h w))"

text \<open>An abort signal fires once and calls the listeners registered on it.\<close>

definition signal_fires :: "nat \<Rightarrow> world \<Rightarrow> world" where
  "signal_fires s w =
     (if s \<in> signals_fired w then w
      else fold (\<lambda>l. call (snd l) no_context) (filter (\<lambda>l. fst l = s) (signal_listeners w))
             (w\<lparr> signals_fired := insert s (signals_fired w) \<rparr>))"

text \<open>
  The tail every guarded operation ends with: call \<^verbatim>\<open>onAbort\<close> at once when the signal
  has fired already, register it on the signal otherwise.
\<close>

definition watch_signal :: "guard \<Rightarrow> world \<Rightarrow> world" where
  "watch_signal g w =
     (case g_signal g of
        None \<Rightarrow> w
      | Some s \<Rightarrow>
          if s \<in> signals_fired w then guard_onAbort g w
          else add_abort_listener s (Guard OnAbort g) w)"

subsection \<open>Constructors\<close>

text \<open>
  Modelled from the spec: the event names of the protocol engine (\<^verbatim>\<open>ConnectionEvents\<close>,
  \<^verbatim>\<open>SessionEvents\<close>, \<^verbatim>\<open>ReceiverEvents\<close>, \<^verbatim>\<open>SenderEvents\<close>), which are not part of this
  repository.
\<close>

definition connection_events :: "string list" where
  "connection_events =
     [''connection_open'', ''connection_close'', ''connection_error'', ''protocol_error'',
      ''error'', ''disconnected'', ''settled'']"

definition session_events :: "string list" where
  "session_events = [''session_open'', ''session_error'', ''session_close'', ''settled'']"

definition receiver_events :: "string list" where
  "receiver_events =
     [''message'', ''receiver_open'', ''receiver_drained'', ''receiver_flow'',
      ''receiver_error'', ''receiver_close'', ''settled'']"

definition sender_events :: "string list" where
  "sender_events =
     [''sendable'', ''sender_open'', ''sender_draining'', ''sender_flow'', ''sender_error'',
      ''sender_close'', ''accepted'', ''released'', ''rejected'', ''modified'', ''settled'']"

text \<open>
  \<^verbatim>\<open>_initializeEventListeners\<close>: one re-emitting listener per event of the wrapped object,
  then one per \<^verbatim>\<open>*_error\<close> and \<^verbatim>\<open>*_close\<close> event that can reach it from below.
\<close>

definition initializeEventListeners :: "emitter \<Rightarrow> emitter \<Rightarrow> string list \<Rightarrow> world \<Rightarrow> world" where
  "initializeEventListeners rhea wrapper evs w =
     fold (\<lambda>ev. on_event rhea ev (ReEmit wrapper ev)) evs w"

definition new_Connection :: "real option \<Rightarrow> world" where
  "new_Connection operationTimeout =
     initializeEventListeners RheaConnection ConnectionObj
       (connection_events
        @ [''sender_error'', ''sender_close'', ''receiver_error'', ''receiver_close'',
           ''session_error'', ''session_close''])
       \<lparr> conn_is_open = False,
         open_sessions = {},
         operationTimeoutInSeconds = (case operationTimeout of None \<Rightarrow> 60 | Some t \<Rightarrow> t),
         listeners = [],
         timeouts = [],
         next_timeout = 0,
         signals_fired = {},
         signal_listeners = [],
         outcomes = [],
         next_promise = 0,
         engine_calls = [],
         actionInitiated = (\<lambda>_. 0),
         next_object = 0,
         emitted = [],
         subscriptions = [] \<rparr>"

definition new_Session :: "nat \<Rightarrow> world \<Rightarrow> world" where
  "new_Session n w =
     initializeEventListeners (RheaSession n) (SessionObj n)
       (session_events
        @ [''sender_error'', ''sender_close'', ''receiver_error'', ''receiver_close''])
       (w\<lparr> actionInitiated := (actionInitiated w)(SessionObj n := 0) \<rparr>)"

text \<open>
  Modelled from the spec: the constructor of a link wrapper (\<^verbatim>\<open>link.js\<close>, which is not
  among these files): every named event of the wrapped link is re-emitted on the wrapper.
\<close>

definition new_Link :: "nat \<Rightarrow> string list \<Rightarrow> world \<Rightarrow> world" where
  "new_Link l evs w =
     initializeEventListeners (RheaLink l) (LinkObj l) evs
       (w\<lparr> actionInitiated := (actionInitiated w)(LinkObj l := 0) \<rparr>)"

subsection \<open>Connection\<close>

definition isOpen :: "world \<Rightarrow> bool" where
  "isOpen w = conn_is_open w"

definition Connection_open :: "nat option \<Rightarrow> world \<Rightarrow> world" where
  "Connection_open abortSig w0 =
     (let p = next_promise w0;
          w = w0\<lparr> next_promise := Suc p \<rparr>
      in if \<not> isOpen w
         then
           (let g = \<lparr> g_kind = ConnectionOpen, g_promise = p, g_signal = abortSig,
                      g_timer = next_timeout w, g_target = 0 \<rparr>
            in watch_signal g
                 (add_action ConnectionObj 1
                    (engine Connect
                       (set_timeout (Some (operationTimeoutInSeconds w * 1000))
                          (Guard ActionAfterTimeout g)
                          (once RheaConnection ''disconnected'' (Guard OnClose g)
                             (once RheaConnection ''connection_close'' (Guard OnClose g)
                                (once RheaConnection ''connection_open'' (Guard OnOpen g) w)))))))
         else resolve p TheConnection w)"

definition Connection_close :: "nat option \<Rightarrow> world \<Rightarrow> world" where
  "Connection_close abortSig w0 =
     (let p = next_promise w0;
          w = w0\<lparr> next_promise := Suc p \<rparr>
      in if isOpen w
         then
           (let g = \<lparr> g_kind = ConnectionClose, g_promise = p, g_signal = abortSig,
                      g_timer = next_timeout w, g_target = 0 \<rparr>
            in watch_signal g
                 (add_action ConnectionObj 1
                    (engine ConnectionCloseCall
                       (set_timeout (Some (operationTimeoutInSeconds w * 1000))
                          (Guard ActionAfterTimeout g)
                          (once RheaConnection ''disconnected'' (Guard OnDisconnected g)
                             (once RheaConnection ''connection_error'' (Guard OnErrorH g)
                                (once RheaConnection ''connection_close'' (Guard OnClose g) w)))))))
         else resolve p Void w)"

definition Connection_createSession :: "nat option \<Rightarrow> world \<Rightarrow> world" where
  "Connection_createSession abortSig w0 =
     (let p = next_promise w0;
          n = next_object w0;
          w = w0\<lparr> next_promise := Suc p, next_object := Suc n \<rparr>;
          w1 = add_action (SessionObj n) 1 (new_Session n (engine (CreateSessionCall n) w));
          g = \<lparr> g_kind = CreateSession, g_promise = p, g_signal = abortSig,
                g_timer = next_timeout w1, g_target = n \<rparr>
      in watch_signal g
           (engine (Begin n)
              (set_timeout (Some (operationTimeoutInSeconds w1 * 1000))
                 (Guard ActionAfterTimeout g)
                 (once RheaConnection ''disconnected'' (Guard OnDisconnected g)
                    (once (RheaSession n) ''session_close'' (Guard OnClose g)
                       (once (RheaSession n) ''session_open'' (Guard OnOpen g) w1))))))"

subsection \<open>Session\<close>

definition Session_isOpen :: "nat \<Rightarrow> world \<Rightarrow> bool" where
  "Session_isOpen n w = (isOpen w \<and> n \<in> open_sessions w)"

definition Session_close :: "nat \<Rightarrow> nat option \<Rightarrow> world \<Rightarrow> world" where
  "Session_close n abortSig w0 =
     (let p = next_promise w0;
          w = w0\<lparr> next_promise := Suc p \<rparr>
      in if Session_isOpen n w
         then
           (let g = \<lparr> g_kind = SessionClose, g_promise = p, g_signal = abortSig,
                      g_timer = next_timeout w, g_target = n \<rparr>
            in watch_signal g
                 (add_action (SessionObj n) 1
                    (engine (SessionCloseCall n)
                       (set_timeout (Some (operationTimeoutInSeconds w * 1000))
                          (Guard ActionAfterTimeout g)
                          (once RheaConnection ''disconnected'' (Guard OnDisconnected g)
                             (once (RheaSession n) ''session_error'' (Guard OnErrorH g)
                                (once (RheaSession n) ''session_close'' (Guard OnClose g) w)))))))
         else removeAllListeners (SessionObj n) (resolve p Void w))"

record receiver_options =
  r_onMessage :: bool
  r_onError :: bool
  r_onClose :: bool
  r_onSettled :: bool
  r_onSessionError :: bool
  r_onSessionClose :: bool
  r_credit_window :: "nat option"
  r_abortSignal :: "nat option"

text \<open>Registering the handlers the caller supplied, in the order of the list.\<close>

definition add_handlers :: "emitter \<Rightarrow> (bool \<times> string \<times> string) list \<Rightarrow> world \<Rightarrow> world" where
  "add_handlers em hs w =
     fold (\<lambda>h. on_event em (fst (snd h)) (Handler (snd (snd h)))) (filter fst hs) w"

text \<open>
  The handlers of the options object: whether each is supplied, the event it is registered
  for, and its name in the options.
\<close>

definition session_handlers :: "bool \<Rightarrow> bool \<Rightarrow> (bool \<times> string \<times> string) list" where
  "session_handlers onSessionError onSessionClose =
     [(onSessionError, ''session_error'', ''onSessionError''),
      (onSessionClose, ''session_close'', ''onSessionClose'')]"

definition receiver_handlers :: "receiver_options \<Rightarrow> (bool \<times> string \<times> string) list" where
  "receiver_handlers opts =
     [(r_onMessage opts, ''message'', ''onMessage''),
      (r_onError opts, ''receiver_error'', ''onError''),
      (r_onClose opts, ''receiver_close'', ''onClose''),
      (r_onSettled opts, ''settled'', ''onSettled'')]"

definition receiver_config_message :: string where
  "receiver_config_message =
     ''Either provide both 'onMessage' and 'onError' handlers, or please set the credit_window to 0, if you want to provide only the 'onError' handler. This ensures no messages are lost between the receiver getting created  and the 'onMessage' handler being added.''"

definition Session_createReceiver :: "nat \<Rightarrow> receiver_options option \<Rightarrow> world \<Rightarrow> world" where
  "Session_createReceiver n options w0 =
     (let p = next_promise w0;
          w = w0\<lparr> next_promise := Suc p \<rparr>
      in if (case options of
               None \<Rightarrow> False
             | Some opts \<Rightarrow>
                 ((r_onMessage opts \<and> \<not> r_onError opts) \<or> (r_onError opts \<and> \<not> r_onMessage opts))
                 \<and> r_credit_window opts \<noteq> Some 0)
         then reject p (PlainError receiver_config_message) w
         else
           (let opts = (case options of
                          None \<Rightarrow> \<lparr> r_onMessage = False, r_onError = False, r_onClose = False,
                                     r_onSettled = False, r_onSessionError = False,
                                     r_onSessionClose = False, r_credit_window = None,
                                     r_abortSignal = None \<rparr>
                        | Some x \<Rightarrow> x);
                w1 = add_handlers (SessionObj n)
                       (session_handlers (r_onSessionError opts) (r_onSessionClose opts)) w;
                l = next_object w1;
                w2 = engine (AttachReceiver n l) (w1\<lparr> next_object := Suc l \<rparr>);
                w3 = add_action (LinkObj l) 1 (new_Link l receiver_events w2);
                w4 = add_handlers (LinkObj l) (receiver_handlers opts) w3;
                g = \<lparr> g_kind = CreateReceiver, g_promise = p, g_signal = r_abortSignal opts,
                      g_timer = next_timeout w4, g_target = l \<rparr>
            in watch_signal g
                 (set_timeout (Some (operationTimeoutInSeconds w4 * 1000))
                    (Guard ActionAfterTimeout g)
                    (on_event RheaConnection ''disconnected'' (Guard OnDisconnected g)
                       (once (RheaLink l) ''receiver_close'' (Guard OnClose g)
                          (once (RheaLink l) ''receiver_open'' (Guard OnOpen g) w4))))))"

datatype SenderType = sender | AwaitableSender

record sender_options =
  s_onError :: bool
  s_onClose :: bool
  s_onSessionError :: bool
  s_onSessionClose :: bool
  s_onAccepted :: bool
  s_onRejected :: bool
  s_onReleased :: bool
  s_onModified :: bool
  s_abortSignal :: "nat option"

text \<open>
  The listeners the constructor of an AwaitableSender registers on itself and on its
  session; their code is modelled in the first part.
\<close>

definition awaitable_link_handlers :: "sender_options \<Rightarrow> (bool \<times> string \<times> string) list" where
  "awaitable_link_handlers opts =
     [(True, ''accepted'', ''AwaitableSender.onSendSuccess''),
      (True, ''rejected'', ''AwaitableSender.onSendFailure''),
      (True, ''released'', ''AwaitableSender.onSendFailure''),
      (True, ''modified'', ''AwaitableSender.onSendFailure''),
      (\<not> s_onError opts, ''sender_error'', ''AwaitableSender.onError'')]"

definition awaitable_session_handlers :: "sender_options \<Rightarrow> (bool \<times> string \<times> string) list" where
  "awaitable_session_handlers opts =
     [(\<not> s_onSessionError opts, ''session_error'', ''AwaitableSender.onError'')]"

definition awaitable_constructor :: "nat \<Rightarrow> nat \<Rightarrow> sender_options \<Rightarrow> world \<Rightarrow> world" where
  "awaitable_constructor n l opts w =
     add_handlers (SessionObj n) (awaitable_session_handlers opts)
       (add_handlers (LinkObj l) (awaitable_link_handlers opts) w)"

definition sender_handlers :: "SenderType \<Rightarrow> sender_options \<Rightarrow> (bool \<times> string \<times> string) list" where
  "sender_handlers type opts =
     [(s_onError opts, ''sender_error'', ''onError''),
      (s_onClose opts, ''sender_close'', ''onClose'')]
     @ (case type of
          sender \<Rightarrow>
            [(s_onAccepted opts, ''accepted'', ''onAccepted''),
             (s_onRejected opts, ''rejected'', ''onRejected''),
             (s_onReleased opts, ''released'', ''onReleased''),
             (s_onModified opts, ''modified'', ''onModified'')]
        | AwaitableSender \<Rightarrow> [])"

definition createSender :: "SenderType \<Rightarrow> nat \<Rightarrow> sender_options option \<Rightarrow> world \<Rightarrow> world" where
  "createSender type n options w0 =
     (let p = next_promise w0;
          w = w0\<lparr> next_promise := Suc p \<rparr>;
          opts = (case options of
                    None \<Rightarrow> \<lparr> s_onError = False, s_onClose = False, s_onSessionError = False,
                               s_onSessionClose = False, s_onAccepted = False,
                               s_onRejected = False, s_onReleased = False,
                               s_onModified = False, s_abortSignal = None \<rparr>
                  | Some x \<Rightarrow> x);
          w1 = add_handlers (SessionObj n)
                 (session_handlers (s_onSessionError opts) (s_onSessionClose opts)) w;
          l = next_object w1;
          w2 = engine (AttachSender n l) (w1\<lparr> next_object := Suc l \<rparr>);
          w3 = (case type of
                  sender \<Rightarrow> new_Link l sender_events w2
                | AwaitableSender \<Rightarrow> awaitable_constructor n l opts (new_Link l sender_events w2));
          w4 = add_action (LinkObj l) 1 w3;
          w5 = add_handlers (LinkObj l) (sender_handlers type opts) w4;
          g = \<lparr> g_kind = CreateSender, g_promise = p, g_signal = s_abortSignal opts,
                g_timer = next_timeout w5, g_target = l \<rparr>
      in watch_signal g
           (set_timeout (Some (operationTimeoutInSeconds w5 * 1000))
              (Guard ActionAfterTimeout g)
              (on_event RheaConnection ''disconnected'' (Guard OnDisconnected g)
                 (once (RheaLink l) ''sender_close'' (Guard OnClose g)
                    (once (RheaLink l) ''sendable'' (Guard OnOpen g) w5)))))"

definition Session_createSender :: "nat \<Rightarrow> sender_options option \<Rightarrow> world \<Rightarrow> world" where
  "Session_createSender n options w = createSender sender n options w"

definition Session_createAwaitableSender :: "nat \<Rightarrow> sender_options option \<Rightarrow> world \<Rightarrow> world" where
  "Session_createAwaitableSender n options w = createSender AwaitableSender n options w"

text \<open>The number of \<^verbatim>\<open>disconnected\<close> listeners on the engine's connection object.\<close>

definition disconnected_listener_count :: "world \<Rightarrow> nat" where
  "disconnected_listener_count w =
     length (filter (\<lambda>r. fst r = RheaConnection \<and> fst (snd r) = ''disconnected'') (listeners w))"

text \<open>The registrations of closures of guarded operations among the listeners.\<close>

definition is_guard :: "emitter \<times> string \<times> bool \<times> listener \<Rightarrow> bool" where
  "is_guard r = (case snd (snd (snd r)) of Guard _ _ \<Rightarrow> True | _ \<Rightarrow> False)"

definition guard_listeners :: "world \<Rightarrow> (emitter \<times> string \<times> bool \<times> listener) list" where
  "guard_listeners w = filter is_guard (listeners w)"

text \<open>The outcomes recorded for one promise.\<close>

definition outcomes_of :: "world \<Rightarrow> nat \<Rightarrow> result outcome list" where
  "outcomes_of w p = map snd (filter (\<lambda>x. fst x = p) (outcomes w))"

subsection \<open>What the engine does\<close>

text \<open>
  Modelled from the spec: the protocol engine reporting that the connection, or a session,
  is open: \<^verbatim>\<open>is_open()\<close> becomes true and the event is emitted.
\<close>

definition connection_opened :: "world \<Rightarrow> world" where
  "connection_opened w =
     emit RheaConnection ''connection_open'' no_context (w\<lparr> conn_is_open := True \<rparr>)"

definition session_opened :: "nat \<Rightarrow> world \<Rightarrow> world" where
  "session_opened n w =
     emit (RheaSession n) ''session_open'' no_context
       (w\<lparr> open_sessions := insert n (open_sessions w) \<rparr>)"

text \<open>Worlds used to exercise the theorems below.\<close>

definition open_connection :: world where
  "open_connection = connection_opened (Connection_open None (new_Connection None))"

definition open_session :: world where
  "open_session = session_opened 0 (Connection_createSession None open_connection)"

definition fired_signal_world :: world where
  "fired_signal_world = (new_Connection None)\<lparr> signals_fired := {1} \<rparr>"

definition busy_session_world :: world where
  "busy_session_world = add_action (SessionObj 0) 1 (new_Connection None)"

definition only_onMessage :: receiver_options where
  "only_onMessage =
     \<lparr> r_onMessage = True, r_onError = False, r_onClose = False, r_onSettled = False,
       r_onSessionError = False, r_onSessionClose = False, r_credit_window = None,
       r_abortSignal = None \<rparr>"

text \<open>The \<^verbatim>\<open>on\<close> and \<^verbatim>\<open>once\<close> calls made between two worlds.\<close>

definition new_subscriptions :: "world \<Rightarrow> world \<Rightarrow> (emitter \<times> string) list" where
  "new_subscriptions w w' = drop (length (subscriptions w)) (subscriptions w')"

text \<open>
  What a guarded operation of kind \<open>k\<close> that found its abort signal fired has done when
  the call returns: one rejection of its promise with the abort error of the operation; a
  \<^verbatim>\<open>disconnected\<close> listener was registered on the engine's connection during the call and
  none is left over; the one timer it started is not active; no abort listener was added.
\<close>

definition rejected_in_call :: "op_kind \<Rightarrow> world \<Rightarrow> world \<Rightarrow> bool" where
  "rejected_in_call k w w' \<longleftrightarrow>
     outcomes w' = outcomes w @ [(next_promise w, Rejected (AbortError (abort_message k)))]
     \<and> (RheaConnection, ''disconnected'') \<in> set (new_subscriptions w w')
     \<and> disconnected_listener_count w' = disconnected_listener_count w
     \<and> next_timeout w' = Suc (next_timeout w)
     \<and> timeouts w' = filter (\<lambda>t. fst t \<noteq> next_timeout w) (timeouts w)
     \<and> set (signal_listeners w') \<subseteq> set (signal_listeners w)"

text \<open>The receiver options that pass the configuration guard of \<^verbatim>\<open>createReceiver\<close>.\<close>

definition handlers_consistent :: "receiver_options \<Rightarrow> bool" where
  "handlers_consistent opts =
     (\<not> (((r_onMessage opts \<and> \<not> r_onError opts) \<or> (r_onError opts \<and> \<not> r_onMessage opts))
          \<and> r_credit_window opts \<noteq> Some 0))"

definition fired_open_session :: world where
  "fired_open_session = open_session\<lparr> signals_fired := {1} \<rparr>"

definition aborted_sender :: sender_world where
  "aborted_sender = sendable_sender\<lparr> aborted := {1} \<rparr>"

definition aborted_send_options :: "send_options option" where
  "aborted_send_options = Some \<lparr> timeoutInSeconds = None, abortSignal = Some 1 \<rparr>"

definition no_handlers :: receiver_options where
  "no_handlers =
     \<lparr> r_onMessage = False, r_onError = False, r_onClose = False, r_onSettled = False,
       r_onSessionError = False, r_onSessionClose = False, r_credit_window = None,
       r_abortSignal = Some 1 \<rparr>"

text \<open>Closing the sessions of a list, one call after the other, none awaited.\<close>

definition close_sessions :: "nat list \<Rightarrow> world \<Rightarrow> world" where
  "close_sessions ns w = fold (\<lambda>n. Session_close n None) ns w"

section \<open>Properties of the AwaitableSender\<close>

lemma filter_two_keys:
  assumes "distinct (map f xs)" "distinct (map g xs)" "x \<in> set xs"
  shows "filter (\<lambda>y. f y \<noteq> f x) xs = filter (\<lambda>y. g y \<noteq> g x) xs"
proof (rule filter_cong[OF refl])
  fix y assume "y \<in> set xs"
  with assms have "f y = f x \<longleftrightarrow> y = x" "g y = g x \<longleftrightarrow> y = x"
    by (auto simp: distinct_map dest: inj_onD)
  then show "(f y \<noteq> f x) = (g y \<noteq> g x)" by simp
qed

lemma delete_eq_filter: "AList.delete k xs = filter (\<lambda>y. fst y \<noteq> k) xs"
  by (induction xs) auto

lemma update_fresh: "k \<notin> fst ` set xs \<Longrightarrow> AList.update k v xs = xs @ [(k, v)]"
  by (induction xs) auto

lemma inv_init: "sender_inv (new_AwaitableSender options)"
  by (simp add: sender_inv_def new_AwaitableSender_def timer_triples_def map_triples_def
      awaiting_sends_def)

lemma inv_ignores [simp]:
  "sender_inv (w\<lparr> abort_listeners := al \<rparr>) = sender_inv w"
  "sender_inv (w\<lparr> aborted := ab \<rparr>) = sender_inv w"
  "sender_inv (w\<lparr> link_sendable := b \<rparr>) = sender_inv w"
  by (simp_all add: sender_inv_def timer_triples_def map_triples_def awaiting_sends_def)

lemma awaiting_sends_settle:
  "awaiting_sends (w\<lparr> settlements := settlements w @ [(c, out)] \<rparr>)
     = filter (\<lambda>y. snd y \<noteq> c) (awaiting_sends w)"
  by (auto simp: awaiting_sends_def filter_map comp_def
        intro!: arg_cong[where f = "map _"] filter_cong)

lemma inv_remove_triple:
  assumes inv: "sender_inv w" and mem: "(h, i, c) \<in> set (map_triples w)"
  shows "sender_inv (w\<lparr> timers := AList.delete h (timers w),
                        deliveryDispositionMap := AList.delete i (deliveryDispositionMap w),
                        settlements := settlements w @ [(c, out)] \<rparr>)"
proof -
  let ?T = "map_triples w"
  let ?w' = "w\<lparr> timers := AList.delete h (timers w),
                 deliveryDispositionMap := AList.delete i (deliveryDispositionMap w),
                 settlements := settlements w @ [(c, out)] \<rparr>"
  from inv have TT: "timer_triples w = ?T" and AW: "map snd ?T = awaiting_sends w"
    and dt: "distinct (map fst (timers w))" and ds: "distinct (map fst (sent w))"
    and dc: "distinct (map (\<lambda>x. fst (snd x)) (sent w))"
    and dS: "distinct (map fst (settlements w))"
    and bt: "list_all (\<lambda>h. h < next_timer w) (map fst (timers w))"
    and bs: "list_all (\<lambda>x. fst x < next_delivery w \<and> fst (snd x) < next_call w) (sent w)"
    and bS: "list_all (\<lambda>c. c < next_call w) (map fst (settlements w))"
    by (simp_all add: sender_inv_def)
  have dh: "distinct (map fst ?T)"
    using dt TT[symmetric] by (simp add: timer_triples_def comp_def)
  have daw1: "distinct (map fst (awaiting_sends w))"
    using ds by (simp add: awaiting_sends_def comp_def distinct_map_filter)
  have daw2: "distinct (map snd (awaiting_sends w))"
    using dc by (simp add: awaiting_sends_def comp_def distinct_map_filter)
  have di: "distinct (map (\<lambda>t. fst (snd t)) ?T)"
    using daw1 AW[symmetric] by (simp add: comp_def)
  have mem_aw: "(i, c) \<in> set (awaiting_sends w)"
    using mem AW[symmetric] by force
  have c_new: "c \<notin> fst ` set (settlements w)" and c_lt: "c < next_call w"
    using mem_aw bs by (auto simp: awaiting_sends_def list_all_iff)
  have "timer_triples ?w' = filter (\<lambda>t. fst t \<noteq> h) (timer_triples w)"
    by (simp add: timer_triples_def delete_eq_filter filter_map comp_def)
  then have t': "timer_triples ?w' = filter (\<lambda>t. fst t \<noteq> h) ?T"
    by (simp only: TT)
  have m': "map_triples ?w' = filter (\<lambda>t. fst (snd t) \<noteq> i) ?T"
    by (simp add: map_triples_def delete_eq_filter filter_map comp_def)
  have eq1: "filter (\<lambda>t. fst t \<noteq> h) ?T = filter (\<lambda>t. fst (snd t) \<noteq> i) ?T"
    using filter_two_keys[OF dh di mem] by simp
  have eq2: "filter (\<lambda>y. fst y \<noteq> i) (awaiting_sends w) = filter (\<lambda>y. snd y \<noteq> c) (awaiting_sends w)"
    using filter_two_keys[OF daw1 daw2 mem_aw] by simp
  have a': "map snd (map_triples ?w') = awaiting_sends ?w'"
  proof -
    have "map snd (map_triples ?w') = filter (\<lambda>y. fst y \<noteq> i) (map snd ?T)"
      by (simp add: m' filter_map comp_def)
    also have "\<dots> = filter (\<lambda>y. snd y \<noteq> c) (awaiting_sends w)"
      by (simp add: AW eq2)
    also have "\<dots> = awaiting_sends ?w'"
      using awaiting_sends_settle[of "w\<lparr> timers := AList.delete h (timers w),
                 deliveryDispositionMap := AList.delete i (deliveryDispositionMap w)\<rparr>" c out]
      by (simp add: awaiting_sends_def)
    finally show ?thesis .
  qed
  show ?thesis
    unfolding sender_inv_def
    using t' m' eq1 a' dt ds dc dS bt bs bS c_new c_lt
    by (simp add: delete_eq_filter distinct_map_filter list_all_iff)
qed

lemma map_triples_mem:
  "map_of (deliveryDispositionMap w) i = Some p \<Longrightarrow> (p_timer p, i, p_call p) \<in> set (map_triples w)"
  by (force simp: map_triples_def dest: map_of_SomeD)

lemma timer_triples_mem:
  "map_of (timers w) h = Some te \<Longrightarrow> (h, t_delivery te, t_call te) \<in> set (timer_triples w)"
  by (force simp: timer_triples_def dest: map_of_SomeD)

lemma inv_fold:
  "(\<And>x w. sender_inv w \<Longrightarrow> sender_inv (f x w)) \<Longrightarrow> sender_inv w \<Longrightarrow> sender_inv (fold f xs w)"
  by (induction xs arbitrary: w) auto

lemma inv_resolve_entry:
  assumes "sender_inv w" "map_of (deliveryDispositionMap w) i = Some p"
  shows "sender_inv (promise_resolve p i (map_delete i (clearTimeout (p_timer p) w)))"
  using inv_remove_triple[OF assms(1) map_triples_mem[OF assms(2)], of "Resolved i"]
  by (simp add: promise_resolve_def removeAbortListener_def settle_def map_delete_def
      clearTimeout_def split: option.splits)

lemma inv_reject_entry:
  assumes "sender_inv w" "map_of (deliveryDispositionMap w) i = Some p"
  shows "sender_inv (promise_reject p i e (map_delete i (clearTimeout (p_timer p) w)))"
  using inv_remove_triple[OF assms(1) map_triples_mem[OF assms(2)], of "Rejected e"]
  by (simp add: promise_reject_def removeAbortListener_def settle_def map_delete_def
      clearTimeout_def split: option.splits)

lemma inv_onSendSuccess: "sender_inv w \<Longrightarrow> sender_inv (onSendSuccess i w)"
  by (simp add: onSendSuccess_def inv_resolve_entry split: option.splits)

lemma inv_onSendFailure: "sender_inv w \<Longrightarrow> sender_inv (onSendFailure n i e w)"
  by (simp add: onSendFailure_def inv_reject_entry split: option.splits)

lemma inv_onAbort: "sender_inv w \<Longrightarrow> sender_inv (onAbort i w)"
  by (simp add: onAbort_def inv_reject_entry split: option.splits)

lemma inv_onError: "sender_inv w \<Longrightarrow> sender_inv (onError n e w)"
  unfolding onError_def by (rule inv_fold) (rule inv_onSendFailure)

lemma inv_run_handler: "sender_inv w \<Longrightarrow> sender_inv (run_handler h ctx w)"
  by (cases h) (simp_all add: inv_onSendSuccess inv_onSendFailure inv_onError)

lemma inv_emit_on: "sender_inv w \<Longrightarrow> sender_inv (emit_on ls n ctx w)"
  unfolding emit_on_def by (rule inv_fold) (rule inv_run_handler)

lemma inv_timer_fires: "sender_inv w \<Longrightarrow> sender_inv (timer_fires h w)"
proof (cases "map_of (timers w) h")
  case None
  assume "sender_inv w"
  with None show ?thesis by (simp add: timer_fires_def)
next
  case (Some te)
  assume inv: "sender_inv w"
  then have "(h, t_delivery te, t_call te) \<in> set (map_triples w)"
    using timer_triples_mem[OF Some] by (simp add: sender_inv_def)
  from inv_remove_triple[OF inv this, of "Rejected (OperationTimeoutError ''send'')"] Some
  show ?thesis
    by (simp add: timer_fires_def settle_def map_delete_def clearTimeout_def)
qed

lemma inv_abort_fires: "sender_inv w \<Longrightarrow> sender_inv (abort_fires s w)"
  unfolding abort_fires_def by (auto intro!: inv_fold inv_onAbort)

lemma inv_settle_fresh:
  assumes "sender_inv w"
  shows "sender_inv (settle (next_call w) out (w\<lparr> next_call := Suc (next_call w) \<rparr>))"
proof -
  have "\<And>x. x \<in> set (sent w) \<Longrightarrow> fst (snd x) \<noteq> next_call w"
    using assms by (auto simp: sender_inv_def list_all_iff)
  then have "filter (\<lambda>x. fst (snd x) \<noteq> next_call w \<and> fst (snd x) \<notin> fst ` set (settlements w)) (sent w)
       = filter (\<lambda>x. fst (snd x) \<notin> fst ` set (settlements w)) (sent w)"
    by (auto intro: filter_cong)
  with assms show ?thesis
    by (auto simp: sender_inv_def settle_def timer_triples_def map_triples_def awaiting_sends_def
        list_all_iff less_Suc_eq)
qed

lemma map_keys_sent:
  assumes "sender_inv w"
  shows "fst ` set (deliveryDispositionMap w) \<subseteq> fst ` set (sent w)"
proof -
  have "map fst (deliveryDispositionMap w) = map fst (map snd (map_triples w))"
    by (simp add: map_triples_def comp_def)
  also have "\<dots> = map fst (awaiting_sends w)"
    using assms by (simp add: sender_inv_def)
  finally have "set (map fst (deliveryDispositionMap w)) = set (map fst (awaiting_sends w))"
    by simp
  then show ?thesis
    by (auto simp: awaiting_sends_def)
qed

lemma inv_send_issue:
  assumes inv: "sender_inv w"
  shows "sender_inv
     (map_set (next_delivery w) \<lparr> p_call = next_call w, p_signal = sig, p_timer = next_timer w \<rparr>
        (link_send (next_call w) msg
           (setTimeout \<lparr> t_delay = d, t_delivery = next_delivery w, t_call = next_call w \<rparr>
              (w\<lparr> next_call := Suc (next_call w) \<rparr>))))"
proof -
  have "\<And>k. k \<in> fst ` set (sent w) \<Longrightarrow> k < next_delivery w"
    using inv by (auto simp: sender_inv_def list_all_iff)
  with map_keys_sent[OF inv]
  have fresh: "next_delivery w \<notin> fst ` set (deliveryDispositionMap w)"
    by (meson less_irrefl subsetD)
  have nc: "next_call w \<notin> fst ` set (settlements w)"
    using inv by (auto simp: sender_inv_def list_all_iff)
  show ?thesis
    using inv nc
    by (auto simp: sender_inv_def map_set_def link_send_def setTimeout_def update_fresh[OF fresh]
        timer_triples_def map_triples_def awaiting_sends_def list_all_iff less_Suc_eq)
qed

lemma inv_send: "sender_inv w \<Longrightarrow> sender_inv (send msg options w)"
  using inv_settle_fresh[of w] inv_send_issue[of w]
  by (auto simp: send_def Let_def split: option.splits)

lemma inv_step: "sender_inv w \<Longrightarrow> sender_inv (step s w)"
  by (cases s) (simp_all add: inv_send sender_emit_def session_emit_def inv_emit_on
      inv_timer_fires inv_abort_fires)

lemma inv_run: "sender_inv (run steps options)"
  unfolding run_def by (rule inv_fold[OF inv_step inv_init])

lemma inv_map_ids:
  assumes "sender_inv w"
  shows "map fst (deliveryDispositionMap w) = awaiting w"
proof -
  have "map fst (deliveryDispositionMap w) = map fst (map snd (map_triples w))"
    by (simp add: map_triples_def comp_def)
  with assms show ?thesis by (simp add: sender_inv_def awaiting_def)
qed

lemma inv_timer_ids:
  assumes "sender_inv w"
  shows "map (\<lambda>x. t_delivery (snd x)) (timers w) = awaiting w"
proof -
  have "map (\<lambda>x. t_delivery (snd x)) (timers w) = map fst (map snd (timer_triples w))"
    by (simp add: timer_triples_def comp_def)
  with assms show ?thesis by (simp add: sender_inv_def awaiting_def)
qed

lemma awaiting_terminated_length:
  "length (awaiting w) + length (terminated w) = length (sent w)"
  using sum_length_filter_compl[of "\<lambda>x. fst (snd x) \<notin> fst ` set (settlements w)" "sent w"]
  by (simp add: awaiting_def awaiting_sends_def terminated_def)

lemmas sender_defs =
  run_def new_AwaitableSender_def send_def Let_def settle_def setTimeout_def clearTimeout_def
  map_delete_def map_set_def link_send_def send_timeout_def removeAbortListener_def
  promise_resolve_def promise_reject_def onSendSuccess_def onSendFailure_def onError_def
  emit_on_def sender_emit_def session_emit_def timer_fires_def onAbort_def abort_fires_def
  createAbortError_def awaiting_def awaiting_sends_def terminated_def default_options_def
  signal_of_def timeout_of_def already_aborted_def settlements_of_def sendable_sender_def
  timer_delays_def

lemma delete_head_distinct:
  "distinct (map fst (x # xs)) \<Longrightarrow> AList.delete (fst x) (x # xs) = xs"
  by (cases x) (force simp: delete_eq_filter filter_id_conv)

lemma onError_fold:
  "distinct (map fst xs) \<Longrightarrow> deliveryDispositionMap w = xs \<Longrightarrow>
   deliveryDispositionMap (fold (\<lambda>i. onSendFailure n i e) (map fst xs) w) = []
   \<and> settlements (fold (\<lambda>i. onSendFailure n i e) (map fst xs) w)
       = settlements w @ map (rejection_of n e) xs"
proof (induction xs arbitrary: w)
  case Nil
  then show ?case by simp
next
  case (Cons x xs)
  let ?w1 = "onSendFailure n (fst x) e w"
  have look: "map_of (deliveryDispositionMap w) (fst x) = Some (snd x)"
    using Cons.prems(2) by simp
  have m1: "deliveryDispositionMap ?w1 = xs"
    using look delete_head_distinct[OF Cons.prems(1)] Cons.prems(2)
    by (simp add: onSendFailure_def promise_reject_def removeAbortListener_def settle_def
        map_delete_def clearTimeout_def split: option.splits)
  have s1: "settlements ?w1 = settlements w @ [rejection_of n e x]"
    using look
    by (simp add: onSendFailure_def promise_reject_def removeAbortListener_def settle_def
        map_delete_def clearTimeout_def rejection_of_def split: option.splits)
  from Cons.prems(1) have "distinct (map fst xs)" by simp
  from Cons.IH[OF this m1] s1 show ?case by simp
qed

lemma inv_distinct_keys: "sender_inv w \<Longrightarrow> distinct (map fst (deliveryDispositionMap w))"
proof -
  assume inv: "sender_inv w"
  then have "distinct (map fst (sent w))" by (simp add: sender_inv_def)
  then have "distinct (awaiting w)"
    by (simp add: awaiting_def awaiting_sends_def comp_def distinct_map_filter)
  with inv_map_ids[OF inv] show ?thesis by simp
qed

lemma inv_empty_map_no_timers:
  "sender_inv w \<Longrightarrow> deliveryDispositionMap w = [] \<Longrightarrow> timers w = []"
  by (simp add: sender_inv_def timer_triples_def map_triples_def)

lemma onError_drains:
  assumes "sender_inv w"
  shows "deliveryDispositionMap (onError n e w) = []
     \<and> timers (onError n e w) = []
     \<and> settlements (onError n e w)
          = settlements w @ map (rejection_of n e) (deliveryDispositionMap w)"
  using onError_fold[OF inv_distinct_keys[OF assms] refl, of n e]
    inv_empty_map_no_timers[OF inv_onError[OF assms], of n e]
  by (simp add: onError_def)

lemma listeners_fold:
  "(\<And>x w. sender_listeners (f x w) = sender_listeners w \<and> session_listeners (f x w) = session_listeners w) \<Longrightarrow>
   sender_listeners (fold f xs w) = sender_listeners w \<and> session_listeners (fold f xs w) = session_listeners w"
  by (induction xs arbitrary: w) auto

lemma listeners_onSendFailure:
  "sender_listeners (onSendFailure n i e w) = sender_listeners w
   \<and> session_listeners (onSendFailure n i e w) = session_listeners w"
  by (simp add: onSendFailure_def promise_reject_def removeAbortListener_def settle_def
      map_delete_def clearTimeout_def split: option.splits)

lemma listeners_onSendSuccess:
  "sender_listeners (onSendSuccess i w) = sender_listeners w
   \<and> session_listeners (onSendSuccess i w) = session_listeners w"
  by (simp add: onSendSuccess_def promise_resolve_def removeAbortListener_def settle_def
      map_delete_def clearTimeout_def split: option.splits)

lemma listeners_onAbort:
  "sender_listeners (onAbort i w) = sender_listeners w
   \<and> session_listeners (onAbort i w) = session_listeners w"
  by (simp add: onAbort_def promise_reject_def removeAbortListener_def settle_def
      map_delete_def clearTimeout_def split: option.splits)

lemma listeners_onError:
  "sender_listeners (onError n e w) = sender_listeners w
   \<and> session_listeners (onError n e w) = session_listeners w"
  unfolding onError_def by (rule listeners_fold) (rule listeners_onSendFailure)

lemma listeners_run_handler:
  "sender_listeners (run_handler h ctx w) = sender_listeners w
   \<and> session_listeners (run_handler h ctx w) = session_listeners w"
  by (cases h) (simp_all add: listeners_onSendSuccess listeners_onSendFailure listeners_onError)

lemma listeners_emit_on:
  "sender_listeners (emit_on ls n ctx w) = sender_listeners w
   \<and> session_listeners (emit_on ls n ctx w) = session_listeners w"
  unfolding emit_on_def by (rule listeners_fold) (rule listeners_run_handler)

lemma listeners_abort_fires:
  "sender_listeners (abort_fires s w) = sender_listeners w
   \<and> session_listeners (abort_fires s w) = session_listeners w"
proof (cases "s \<in> aborted w")
  case True
  then show ?thesis by (simp add: abort_fires_def)
next
  case False
  have "sender_listeners (fold (\<lambda>l. onAbort (snd l)) xs v) = sender_listeners v
       \<and> session_listeners (fold (\<lambda>l. onAbort (snd l)) xs v) = session_listeners v" for xs v
    by (rule listeners_fold) (rule listeners_onAbort)
  from this[of _ "w\<lparr>aborted := insert s (aborted w)\<rparr>"] False show ?thesis
    by (simp add: abort_fires_def)
qed

lemma listeners_step:
  "sender_listeners (step s w) = sender_listeners w
   \<and> session_listeners (step s w) = session_listeners w"
proof (cases s)
  case (Send msg options)
  then show ?thesis
    by (simp add: send_def Let_def settle_def setTimeout_def link_send_def map_set_def
        split: option.splits)
next
  case (Timer_fires h)
  then show ?thesis
    by (simp add: timer_fires_def settle_def map_delete_def clearTimeout_def split: option.splits)
qed (simp_all add: sender_emit_def session_emit_def listeners_emit_on listeners_abort_fires)

lemma listeners_run:
  "sender_listeners (run steps options) = sender_listeners (new_AwaitableSender options)
   \<and> session_listeners (run steps options) = session_listeners (new_AwaitableSender options)"
  unfolding run_def by (rule listeners_fold) (rule listeners_step)

text \<open>
  Claim C4. On a sender created without \<^verbatim>\<open>onError\<close>, a \<^verbatim>\<open>sender_error\<close> event after any
  run empties the map, leaves no timer, and rejects each entry of the map once, in order,
  with a \<^verbatim>\<open>SendOperationFailedError\<close> that carries the event name and the error of the
  link; likewise \<^verbatim>\<open>session_error\<close> on a sender created without \<^verbatim>\<open>onSessionError\<close>.
  When the caller supplied the handler of a level, the sender has no drain handler for
  that level and the event leaves its state as it was.
\<close>

theorem error_drain:
  "(\<not> opt_onError options \<longrightarrow>
      deliveryDispositionMap (sender_emit ''sender_error'' ctx (run steps options)) = []
    \<and> timers (sender_emit ''sender_error'' ctx (run steps options)) = []
    \<and> settlements (sender_emit ''sender_error'' ctx (run steps options))
        = settlements (run steps options)
          @ map (rejection_of ''sender_error'' (ctx_error ctx))
              (deliveryDispositionMap (run steps options)))
   \<and> (\<not> opt_onSessionError options \<longrightarrow>
      deliveryDispositionMap (session_emit ''session_error'' ctx (run steps options)) = []
    \<and> timers (session_emit ''session_error'' ctx (run steps options)) = []
    \<and> settlements (session_emit ''session_error'' ctx (run steps options))
        = settlements (run steps options)
          @ map (rejection_of ''session_error'' (ctx_error ctx))
              (deliveryDispositionMap (run steps options)))
   \<and> (opt_onError options \<longrightarrow>
      H_senderError \<notin> snd ` set (sender_listeners (run steps options))
    \<and> sender_emit ''sender_error'' ctx (run steps options) = run steps options)
   \<and> (opt_onSessionError options \<longrightarrow>
      H_sessionError \<notin> snd ` set (session_listeners (run steps options))
    \<and> session_emit ''session_error'' ctx (run steps options) = run steps options)"
proof -
  let ?w = "run steps options"
  have a: "sender_emit ''sender_error'' ctx ?w = onError ''sender_error'' (ctx_error ctx) ?w"
    if "\<not> opt_onError options"
    using that listeners_run[of steps options]
    by (simp add: sender_emit_def emit_on_def new_AwaitableSender_def)
  have b: "session_emit ''session_error'' ctx ?w = onError ''session_error'' (ctx_error ctx) ?w"
    if "\<not> opt_onSessionError options"
    using that listeners_run[of steps options]
    by (simp add: session_emit_def emit_on_def new_AwaitableSender_def)
  have c: "H_senderError \<notin> snd ` set (sender_listeners ?w) \<and> sender_emit ''sender_error'' ctx ?w = ?w"
    if "opt_onError options"
    using that listeners_run[of steps options]
    by (simp add: sender_emit_def emit_on_def new_AwaitableSender_def)
  have d: "H_sessionError \<notin> snd ` set (session_listeners ?w) \<and> session_emit ''session_error'' ctx ?w = ?w"
    if "opt_onSessionError options"
    using that listeners_run[of steps options]
    by (simp add: session_emit_def emit_on_def new_AwaitableSender_def)
  show ?thesis
    using a b c d onError_drains[OF inv_run, of _ "ctx_error ctx" steps options]
    by simp
qed

theorem error_drain_witness:
  "deliveryDispositionMap (run two_pending_steps default_options) \<noteq> []
   \<and> deliveryDispositionMap
       (sender_emit ''sender_error'' link_error_context (run two_pending_steps default_options)) = []
   \<and> timers
       (session_emit ''session_error'' link_error_context (run two_pending_steps default_options)) = []
   \<and> sender_emit ''sender_error'' link_error_context (run two_pending_steps own_handlers_options)
       = run two_pending_steps own_handlers_options
   \<and> session_emit ''session_error'' link_error_context (run two_pending_steps own_handlers_options)
       = run two_pending_steps own_handlers_options"
proof -
  have h1: "\<not> opt_onError default_options" "\<not> opt_onSessionError default_options"
    by (simp_all add: default_options_def)
  have h2: "opt_onError own_handlers_options" "opt_onSessionError own_handlers_options"
    by (simp_all add: own_handlers_options_def)
  have ne: "deliveryDispositionMap (run two_pending_steps default_options) \<noteq> []"
    by (simp add: two_pending_steps_def sender_defs)
  show ?thesis
    using ne h1 h2 error_drain[of default_options link_error_context two_pending_steps]
      error_drain[of own_handlers_options link_error_context two_pending_steps]
    by simp
qed

text \<open>
  Claim C3, as amended. A call of \<^verbatim>\<open>send()\<close> that issues a protocol-level send (the
  sender is sendable and the abort signal, if any, has not fired) starts one timer, whose
  delay is the per-call \<^verbatim>\<open>timeoutInSeconds\<close> when that is a number greater than zero and
  the sender's \<^verbatim>\<open>sendTimeoutInSeconds\<close> otherwise, times 1000 milliseconds. So a positive
  per-call timeout below the sender's default gives a timer of the per-call timeout, not
  of the default.
\<close>

theorem send_timer_duration:
  "link_sendable w \<and> \<not> already_aborted (aborted w) (signal_of options) \<longrightarrow>
     timer_delays (send msg options w)
       = timer_delays w
         @ [(case timeout_of options of
               None \<Rightarrow> sendTimeoutInSeconds w
             | Some t \<Rightarrow> if 0 < t then t else sendTimeoutInSeconds w) * 1000]
   \<and> (\<forall>t. timeout_of options = Some t \<and> 0 < t \<and> t < sendTimeoutInSeconds w \<longrightarrow>
          timer_delays (send msg options w)
            = timer_delays w @ [t * 1000])"
  by (auto simp: timer_delays_def send_def Let_def setTimeout_def link_send_def map_set_def
      send_timeout_def split: option.splits)

theorem send_timer_duration_witness:
  "link_sendable sendable_sender
   \<and> \<not> already_aborted (aborted sendable_sender) (signal_of short_timeout_options)
   \<and> timeout_of short_timeout_options = Some 5
   \<and> (5::real) < sendTimeoutInSeconds sendable_sender
   \<and> timer_delays (send ''m'' short_timeout_options sendable_sender) = [5000]"
  using send_timer_duration[of sendable_sender short_timeout_options "''m''"]
  by (simp add: short_timeout_options_def sender_defs)

text \<open>
  Claim C3 as stated fails: on a sender with the default of 20 seconds, a call with a
  per-call timeout of 5 seconds issues the send and starts a timer of 5000 milliseconds,
  while the maximum of the two is 20 seconds.
\<close>

theorem send_timer_not_max:
  "sent (send ''m'' short_timeout_options sendable_sender) = [(0, 0, ''m'')]
   \<and> timer_delays (send ''m'' short_timeout_options sendable_sender) = [5000]
   \<and> max 5 (sendTimeoutInSeconds sendable_sender) * 1000 = 20000"
  by (simp add: short_timeout_options_def sender_defs)

text \<open>
  No promise of a \<^verbatim>\<open>send()\<close> call is settled twice, in any run; and a disposition or an
  abort for a delivery id that has no map entry changes nothing.
\<close>

lemma settled_at_most_once: "distinct (map fst (settlements (run steps options)))"
  using inv_run[of steps options] by (simp add: sender_inv_def)

lemma missing_entry_no_effect:
  assumes "map_of (deliveryDispositionMap w) i = None"
  shows "onSendSuccess i w = w" and "onSendFailure eventName i error w = w" and "onAbort i w = w"
  using assms by (simp_all add: onSendSuccess_def onSendFailure_def onAbort_def)

text \<open>
  Claim C1 at a send with an abort signal whose timer fires: the promise is rejected once
  with the timeout error and the map entry and the timer are gone, but the \<^verbatim>\<open>onAbort\<close>
  listener is still registered on the signal. When the same send is accepted instead, the
  listener is removed.
\<close>

theorem timeout_keeps_abort_listener:
  "settlements (run timeout_steps default_options) = [(0, Rejected (OperationTimeoutError ''send''))]
   \<and> deliveryDispositionMap (run timeout_steps default_options) = []
   \<and> timers (run timeout_steps default_options) = []
   \<and> abort_listeners (run timeout_steps default_options) = [(7, 0)]
   \<and> settlements (run accepted_steps default_options) = [(0, Resolved 0)]
   \<and> abort_listeners (run accepted_steps default_options) = []"
  by (simp add: timeout_steps_def accepted_steps_def sender_defs)

subsection \<open>Terminal events remove the entry\<close>

lemma cleared_after:
  assumes "sender_inv w" "i \<notin> set (map fst (deliveryDispositionMap w))"
  shows "cleared i w"
  using assms inv_map_ids[OF assms(1)] inv_timer_ids[OF assms(1)]
  by (simp add: cleared_def)

lemma through_entry_fields:
  "deliveryDispositionMap (promise_resolve p i (map_delete i (clearTimeout h w)))
     = AList.delete i (deliveryDispositionMap w)"
  "deliveryDispositionMap (promise_reject p i e (map_delete i (clearTimeout h w)))
     = AList.delete i (deliveryDispositionMap w)"
  "abort_listeners (promise_resolve p i (map_delete i (clearTimeout h w)))
     = (case p_signal p of None \<Rightarrow> abort_listeners w
        | Some s \<Rightarrow> remove1 (s, i) (abort_listeners w))"
  "abort_listeners (promise_reject p i e (map_delete i (clearTimeout h w)))
     = (case p_signal p of None \<Rightarrow> abort_listeners w
        | Some s \<Rightarrow> remove1 (s, i) (abort_listeners w))"
  "aborted (promise_resolve p i (map_delete i (clearTimeout h w))) = aborted w"
  "aborted (promise_reject p i e (map_delete i (clearTimeout h w))) = aborted w"
  by (simp_all add: promise_resolve_def promise_reject_def removeAbortListener_def settle_def
      map_delete_def clearTimeout_def split: option.splits)

lemma listening_delete:
  assumes "listening w"
    and m: "deliveryDispositionMap w' = AList.delete i (deliveryDispositionMap w)"
    and a: "abort_listeners w' = abort_listeners w
            \<or> (\<exists>s. abort_listeners w' = remove1 (s, i) (abort_listeners w))"
  shows "listening w'"
proof -
  have keep: "x \<in> set (abort_listeners w')"
    if "x \<in> set (abort_listeners w)" "snd x \<noteq> i" for x
    using a that by (cases x) (auto simp: in_set_remove1)
  show ?thesis
    using assms(1) keep
    unfolding listening_def m list_all_iff delete_eq_filter
    by (auto split: option.splits)
qed

lemma unfired_delete:
  assumes "unfired w"
    and "deliveryDispositionMap w' = AList.delete i (deliveryDispositionMap w)"
    and "aborted w' = aborted w"
  shows "unfired w'"
  using assms unfolding unfired_def list_all_iff delete_eq_filter
  by (auto split: option.splits)


lemma signals_onSendSuccess:
  "listening w \<Longrightarrow> listening (onSendSuccess i w)"
  "unfired w \<Longrightarrow> unfired (onSendSuccess i w)"
  "set (deliveryDispositionMap (onSendSuccess i w)) \<subseteq> set (deliveryDispositionMap w)"
  "i \<notin> fst ` set (deliveryDispositionMap (onSendSuccess i w))"
proof -
  show "listening w \<Longrightarrow> listening (onSendSuccess i w)"
    by (auto simp: onSendSuccess_def through_entry_fields split: option.splits
        intro!: listening_delete[of w _ i])
  show "unfired w \<Longrightarrow> unfired (onSendSuccess i w)"
    by (auto simp: onSendSuccess_def through_entry_fields split: option.splits
        intro!: unfired_delete[of w _ i])
  show "set (deliveryDispositionMap (onSendSuccess i w)) \<subseteq> set (deliveryDispositionMap w)"
    by (auto simp: onSendSuccess_def through_entry_fields delete_eq_filter split: option.splits)
  show "i \<notin> fst ` set (deliveryDispositionMap (onSendSuccess i w))"
    by (auto simp: onSendSuccess_def through_entry_fields delete_eq_filter map_of_eq_None_iff
        split: option.splits)
qed

lemma signals_onSendFailure:
  "listening w \<Longrightarrow> listening (onSendFailure n i e w)"
  "unfired w \<Longrightarrow> unfired (onSendFailure n i e w)"
  "set (deliveryDispositionMap (onSendFailure n i e w)) \<subseteq> set (deliveryDispositionMap w)"
  "i \<notin> fst ` set (deliveryDispositionMap (onSendFailure n i e w))"
proof -
  show "listening w \<Longrightarrow> listening (onSendFailure n i e w)"
    by (auto simp: onSendFailure_def through_entry_fields split: option.splits
        intro!: listening_delete[of w _ i])
  show "unfired w \<Longrightarrow> unfired (onSendFailure n i e w)"
    by (auto simp: onSendFailure_def through_entry_fields split: option.splits
        intro!: unfired_delete[of w _ i])
  show "set (deliveryDispositionMap (onSendFailure n i e w)) \<subseteq> set (deliveryDispositionMap w)"
    by (auto simp: onSendFailure_def through_entry_fields delete_eq_filter split: option.splits)
  show "i \<notin> fst ` set (deliveryDispositionMap (onSendFailure n i e w))"
    by (auto simp: onSendFailure_def through_entry_fields delete_eq_filter map_of_eq_None_iff
        split: option.splits)
qed

lemma signals_onAbort:
  "listening w \<Longrightarrow> listening (onAbort i w)"
  "unfired w \<Longrightarrow> unfired (onAbort i w)"
  "set (deliveryDispositionMap (onAbort i w)) \<subseteq> set (deliveryDispositionMap w)"
  "i \<notin> fst ` set (deliveryDispositionMap (onAbort i w))"
  "aborted (onAbort i w) = aborted w"
proof -
  show "listening w \<Longrightarrow> listening (onAbort i w)"
    by (auto simp: onAbort_def through_entry_fields split: option.splits
        intro!: listening_delete[of w _ i])
  show "unfired w \<Longrightarrow> unfired (onAbort i w)"
    by (auto simp: onAbort_def through_entry_fields split: option.splits
        intro!: unfired_delete[of w _ i])
  show "set (deliveryDispositionMap (onAbort i w)) \<subseteq> set (deliveryDispositionMap w)"
    by (auto simp: onAbort_def through_entry_fields delete_eq_filter split: option.splits)
  show "i \<notin> fst ` set (deliveryDispositionMap (onAbort i w))"
    by (auto simp: onAbort_def through_entry_fields delete_eq_filter map_of_eq_None_iff
        split: option.splits)
  show "aborted (onAbort i w) = aborted w"
    by (simp add: onAbort_def through_entry_fields split: option.splits)
qed

lemma signals_fold:
  "(\<And>x v. listening v \<Longrightarrow> listening (f x v)) \<Longrightarrow> listening w \<Longrightarrow> listening (fold f xs w)"
  "(\<And>x v. unfired v \<Longrightarrow> unfired (f x v)) \<Longrightarrow> unfired w \<Longrightarrow> unfired (fold f xs w)"
  by (induction xs arbitrary: w) auto

lemma signals_onError:
  "listening w \<Longrightarrow> listening (onError n e w)"
  "unfired w \<Longrightarrow> unfired (onError n e w)"
  unfolding onError_def
  by (erule signals_fold(1)[rotated], erule signals_onSendFailure(1))
     (erule signals_fold(2)[rotated], erule signals_onSendFailure(2))

lemma signals_run_handler:
  "listening w \<Longrightarrow> listening (run_handler h ctx w)"
  "unfired w \<Longrightarrow> unfired (run_handler h ctx w)"
  by (cases h; simp add: signals_onSendSuccess signals_onSendFailure signals_onError)+

lemma signals_emit_on:
  "listening w \<Longrightarrow> listening (emit_on ls n ctx w)"
  "unfired w \<Longrightarrow> unfired (emit_on ls n ctx w)"
  unfolding emit_on_def
  by (erule signals_fold(1)[rotated], erule signals_run_handler(1))
     (erule signals_fold(2)[rotated], erule signals_run_handler(2))

lemma signals_timer_fires:
  "listening w \<Longrightarrow> listening (timer_fires h w)"
  "unfired w \<Longrightarrow> unfired (timer_fires h w)"
proof -
  show "listening w \<Longrightarrow> listening (timer_fires h w)"
  proof (cases "map_of (timers w) h")
    case None
    then show "listening w \<Longrightarrow> listening (timer_fires h w)" by (simp add: timer_fires_def)
  next
    case (Some te)
    assume l: "listening w"
    show "listening (timer_fires h w)"
      by (rule listening_delete[OF l, of _ "t_delivery te"])
        (simp_all add: Some timer_fires_def settle_def map_delete_def clearTimeout_def)
  qed
  show "unfired w \<Longrightarrow> unfired (timer_fires h w)"
  proof (cases "map_of (timers w) h")
    case None
    then show "unfired w \<Longrightarrow> unfired (timer_fires h w)" by (simp add: timer_fires_def)
  next
    case (Some te)
    assume u: "unfired w"
    show "unfired (timer_fires h w)"
      by (rule unfired_delete[OF u, of _ "t_delivery te"])
        (simp_all add: Some timer_fires_def settle_def map_delete_def clearTimeout_def)
  qed
qed


lemma abort_fold:
  "set (deliveryDispositionMap (fold (\<lambda>l. onAbort (snd l)) ls v)) \<subseteq> set (deliveryDispositionMap v)
   \<and> (\<forall>l \<in> set ls. snd l \<notin> fst ` set (deliveryDispositionMap (fold (\<lambda>l. onAbort (snd l)) ls v)))
   \<and> aborted (fold (\<lambda>l. onAbort (snd l)) ls v) = aborted v"
proof (induction ls arbitrary: v)
  case Nil
  then show ?case by simp
next
  case (Cons a ls)
  let ?v1 = "onAbort (snd a) v"
  let ?f = "fold (\<lambda>l. onAbort (snd l)) ls ?v1"
  from Cons.IH[of ?v1]
  have sub: "set (deliveryDispositionMap ?f) \<subseteq> set (deliveryDispositionMap ?v1)"
    and rest: "\<forall>l \<in> set ls. snd l \<notin> fst ` set (deliveryDispositionMap ?f)"
    and ab: "aborted ?f = aborted ?v1"
    by blast+
  have "snd a \<notin> fst ` set (deliveryDispositionMap ?f)"
    using sub signals_onAbort(4)[of "snd a" v] by blast
  moreover have "set (deliveryDispositionMap ?f) \<subseteq> set (deliveryDispositionMap v)"
    using sub signals_onAbort(3)[of "snd a" v] by blast
  ultimately show ?case
    using rest ab signals_onAbort(5)[of "snd a" v] by simp
qed

lemma signals_ignore:
  "listening (w\<lparr> aborted := ab \<rparr>) = listening w"
  "listening (w\<lparr> link_sendable := b \<rparr>) = listening w"
  "unfired (w\<lparr> link_sendable := b \<rparr>) = unfired w"
  by (simp_all add: listening_def unfired_def cong: option.case_cong)

lemma listening_abort_fires: "listening w \<Longrightarrow> listening (abort_fires s w)"
proof (cases "s \<in> aborted w")
  case True
  then show "listening w \<Longrightarrow> listening (abort_fires s w)" by (simp add: abort_fires_def)
next
  case False
  assume "listening w"
  then have "listening (w\<lparr> aborted := insert s (aborted w) \<rparr>)"
    by (simp add: signals_ignore)
  then have "listening (fold (\<lambda>l. onAbort (snd l))
      (filter (\<lambda>l. fst l = s) (abort_listeners w)) (w\<lparr> aborted := insert s (aborted w) \<rparr>))"
    by (rule signals_fold(1)[rotated]) (rule signals_onAbort(1))
  with False show ?thesis by (simp add: abort_fires_def)
qed

lemma abort_fires_removes:
  assumes l: "listening w" and u: "unfired w"
    and e: "(i, p) \<in> set (deliveryDispositionMap w)" and sg: "p_signal p = Some s"
  shows "i \<notin> fst ` set (deliveryDispositionMap (abort_fires s w))"
proof -
  from u e sg have nf: "s \<notin> aborted w"
    by (auto simp: unfired_def list_all_iff)
  from l e sg have "(s, i) \<in> set (filter (\<lambda>l. fst l = s) (abort_listeners w))"
    by (auto simp: listening_def list_all_iff)
  with abort_fold[of "filter (\<lambda>l. fst l = s) (abort_listeners w)"
      "w\<lparr> aborted := insert s (aborted w) \<rparr>"]
  have "i \<notin> fst ` set (deliveryDispositionMap (fold (\<lambda>l. onAbort (snd l))
      (filter (\<lambda>l. fst l = s) (abort_listeners w)) (w\<lparr> aborted := insert s (aborted w) \<rparr>)))"
    by force
  with nf show ?thesis by (simp add: abort_fires_def)
qed

lemma unfired_abort_fires:
  assumes l: "listening w" and u: "unfired w"
  shows "unfired (abort_fires s w)"
proof (cases "s \<in> aborted w")
  case True
  with u show ?thesis by (simp add: abort_fires_def)
next
  case False
  let ?ls = "filter (\<lambda>l. fst l = s) (abort_listeners w)"
  let ?w0 = "w\<lparr> aborted := insert s (aborted w) \<rparr>"
  let ?f = "fold (\<lambda>l. onAbort (snd l)) ?ls ?w0"
  have eq: "abort_fires s w = ?f" using False by (simp add: abort_fires_def)
  from abort_fold[of ?ls ?w0]
  have sub: "set (deliveryDispositionMap ?f) \<subseteq> set (deliveryDispositionMap w)"
    and ab: "aborted ?f = insert s (aborted w)"
    by simp_all
  have "case p_signal (snd e) of None \<Rightarrow> True | Some s' \<Rightarrow> s' \<notin> aborted ?f"
    if m: "e \<in> set (deliveryDispositionMap ?f)" for e
  proof (cases "p_signal (snd e)")
    case None
    then show ?thesis by simp
  next
    case (Some s')
    from m sub have in_w: "(fst e, snd e) \<in> set (deliveryDispositionMap w)" by auto
    have "s' \<noteq> s"
    proof
      assume "s' = s"
      with Some abort_fires_removes[OF l u in_w, of s] eq m show False by force
    qed
    moreover from u in_w Some have "s' \<notin> aborted w"
      by (auto simp: unfired_def list_all_iff)
    ultimately show ?thesis using Some ab by simp
  qed
  then show ?thesis
    unfolding eq unfired_def list_all_iff by blast
qed

lemma list_all_update:
  "list_all P xs \<Longrightarrow> P (k, v) \<Longrightarrow> list_all P (AList.update k v xs)"
  by (induction xs) auto

lemma signals_send:
  "listening w \<Longrightarrow> listening (send msg options w)"
  "unfired w \<Longrightarrow> unfired (send msg options w)"
proof -
  show "listening w \<Longrightarrow> listening (send msg options w)"
    unfolding listening_def
    by (auto simp: send_def Let_def settle_def setTimeout_def link_send_def map_set_def
        list_all_iff[of _ "deliveryDispositionMap w"] intro!: list_all_update
        split: option.splits)
  show "unfired w \<Longrightarrow> unfired (send msg options w)"
    unfolding unfired_def
    by (auto simp: send_def Let_def settle_def setTimeout_def link_send_def map_set_def
        already_aborted_def list_all_iff[of _ "deliveryDispositionMap w"]
        intro!: list_all_update split: option.splits)
qed

lemma signals_step:
  "listening w \<and> unfired w \<Longrightarrow> listening (step s w) \<and> unfired (step s w)"
proof (cases s)
  case (Flow b)
  then show "listening w \<and> unfired w \<Longrightarrow> listening (step s w) \<and> unfired (step s w)"
    by (simp add: signals_ignore)
qed (simp_all add: signals_send sender_emit_def session_emit_def signals_emit_on
      signals_timer_fires listening_abort_fires unfired_abort_fires)

lemma signals_run: "listening (run steps options) \<and> unfired (run steps options)"
proof -
  have "listening v \<and> unfired v \<Longrightarrow> listening (fold step xs v) \<and> unfired (fold step xs v)"
    for xs v
    by (induction xs arbitrary: v) (simp_all add: signals_step)
  moreover have "listening (new_AwaitableSender options) \<and> unfired (new_AwaitableSender options)"
    by (simp add: listening_def unfired_def new_AwaitableSender_def)
  ultimately show ?thesis unfolding run_def by blast
qed


lemma disposition_emit:
  "sender_emit ''accepted'' ctx (run steps options)
     = onSendSuccess (ctx_delivery ctx) (run steps options)"
  "sender_emit ''rejected'' ctx (run steps options)
     = onSendFailure ''rejected'' (ctx_delivery ctx) (ctx_error ctx) (run steps options)"
  "sender_emit ''released'' ctx (run steps options)
     = onSendFailure ''released'' (ctx_delivery ctx) (ctx_error ctx) (run steps options)"
  "sender_emit ''modified'' ctx (run steps options)
     = onSendFailure ''modified'' (ctx_delivery ctx) (ctx_error ctx) (run steps options)"
  using listeners_run[of steps options]
  by (simp_all add: sender_emit_def emit_on_def new_AwaitableSender_def)

lemma error_emit:
  "\<not> opt_onError options \<Longrightarrow>
   sender_emit ''sender_error'' ctx (run steps options)
     = onError ''sender_error'' (ctx_error ctx) (run steps options)"
  "\<not> opt_onSessionError options \<Longrightarrow>
   session_emit ''session_error'' ctx (run steps options)
     = onError ''session_error'' (ctx_error ctx) (run steps options)"
  using listeners_run[of steps options]
  by (simp_all add: sender_emit_def session_emit_def emit_on_def new_AwaitableSender_def)

lemma timer_fires_removes:
  "map_of (timers w) h = Some te \<Longrightarrow>
   t_delivery te \<notin> set (map fst (deliveryDispositionMap (timer_fires h w)))"
  by (auto simp: timer_fires_def settle_def map_delete_def clearTimeout_def delete_eq_filter)

text \<open>
  Claim C2, as amended. Let \<open>w\<close> be the state of any AwaitableSender after any run, every
  protocol-level send of which returned its delivery. The delivery ids in the
  \<^verbatim>\<open>deliveryDispositionMap\<close> are exactly, and in order, the ids of the sends whose promise has
  not been settled, and the active timers are the timers of exactly those sends; the size
  of the map plus the number of sends that reached a settlement is the number of sends
  issued; once no send is awaiting, the map is empty and no timer is left. Each terminal
  event removes the entry: after an \<^verbatim>\<open>accepted\<close>, \<^verbatim>\<open>rejected\<close>, \<^verbatim>\<open>released\<close> or \<^verbatim>\<open>modified\<close>
  event for a delivery, after the timer of a delivery fires, and after the abort signal of
  the call that sent it fires, the delivery has no map entry, no active timer and no send
  awaiting; after a \<^verbatim>\<open>sender_error\<close> on a sender created without \<^verbatim>\<open>onError\<close>, and after a
  \<^verbatim>\<open>session_error\<close> on one created without \<^verbatim>\<open>onSessionError\<close>, the map and the timers are
  empty.
\<close>

theorem delivery_map_invariant:
  "w = run steps options \<Longrightarrow>
     map fst (deliveryDispositionMap w) = awaiting w
   \<and> map (\<lambda>x. t_delivery (snd x)) (timers w) = awaiting w
   \<and> length (deliveryDispositionMap w) + length (terminated w) = length (sent w)
   \<and> (awaiting w = [] \<longrightarrow> deliveryDispositionMap w = [] \<and> timers w = [])
   \<and> cleared (ctx_delivery ctx) (sender_emit ''accepted'' ctx w)
   \<and> cleared (ctx_delivery ctx) (sender_emit ''rejected'' ctx w)
   \<and> cleared (ctx_delivery ctx) (sender_emit ''released'' ctx w)
   \<and> cleared (ctx_delivery ctx) (sender_emit ''modified'' ctx w)
   \<and> (map_of (timers w) h = Some te \<longrightarrow> cleared (t_delivery te) (timer_fires h w))
   \<and> (map_of (deliveryDispositionMap w) i = Some p \<and> p_signal p = Some s \<longrightarrow>
        cleared i (abort_fires s w))
   \<and> (\<not> opt_onError options \<longrightarrow>
        deliveryDispositionMap (sender_emit ''sender_error'' ctx w) = []
      \<and> timers (sender_emit ''sender_error'' ctx w) = [])
   \<and> (\<not> opt_onSessionError options \<longrightarrow>
        deliveryDispositionMap (session_emit ''session_error'' ctx w) = []
      \<and> timers (session_emit ''session_error'' ctx w) = [])"
proof -
  assume w: "w = run steps options"
  have inv: "sender_inv w" unfolding w by (rule inv_run)
  have m: "map fst (deliveryDispositionMap w) = awaiting w"
    and t: "map (\<lambda>x. t_delivery (snd x)) (timers w) = awaiting w"
    by (rule inv_map_ids[OF inv], rule inv_timer_ids[OF inv])
  have "length (deliveryDispositionMap w) = length (awaiting w)"
    using arg_cong[OF m, of length] by simp
  then have l: "length (deliveryDispositionMap w) + length (terminated w) = length (sent w)"
    using awaiting_terminated_length[of w] by simp
  have e: "awaiting w = [] \<longrightarrow> deliveryDispositionMap w = [] \<and> timers w = []"
    using m t by (metis map_is_Nil_conv)
  have acc: "cleared (ctx_delivery ctx) (sender_emit ''accepted'' ctx w)"
    unfolding w disposition_emit
    using signals_onSendSuccess(4)[of "ctx_delivery ctx" "run steps options"]
    by (intro cleared_after inv_onSendSuccess inv_run) simp
  have rej: "cleared (ctx_delivery ctx) (sender_emit ''rejected'' ctx w)"
    unfolding w disposition_emit
    using signals_onSendFailure(4)[of "ctx_delivery ctx" "''rejected''" _ "run steps options"]
    by (intro cleared_after inv_onSendFailure inv_run) simp
  have rel: "cleared (ctx_delivery ctx) (sender_emit ''released'' ctx w)"
    unfolding w disposition_emit
    using signals_onSendFailure(4)[of "ctx_delivery ctx" "''released''" _ "run steps options"]
    by (intro cleared_after inv_onSendFailure inv_run) simp
  have md: "cleared (ctx_delivery ctx) (sender_emit ''modified'' ctx w)"
    unfolding w disposition_emit
    using signals_onSendFailure(4)[of "ctx_delivery ctx" "''modified''" _ "run steps options"]
    by (intro cleared_after inv_onSendFailure inv_run) simp
  have tm: "map_of (timers w) h = Some te \<longrightarrow> cleared (t_delivery te) (timer_fires h w)"
    using timer_fires_removes[of w h te] cleared_after[OF inv_timer_fires[OF inv]]
    by blast
  have ab: "map_of (deliveryDispositionMap w) i = Some p \<and> p_signal p = Some s \<longrightarrow>
        cleared i (abort_fires s w)"
  proof
    assume a: "map_of (deliveryDispositionMap w) i = Some p \<and> p_signal p = Some s"
    then have mem: "(i, p) \<in> set (deliveryDispositionMap w)" by (blast dest: map_of_SomeD)
    have lu: "listening w" "unfired w"
      unfolding w using signals_run[of steps options] by simp_all
    from a have sg: "p_signal p = Some s" by simp
    have "i \<notin> fst ` set (deliveryDispositionMap (abort_fires s w))"
      by (rule abort_fires_removes[OF lu mem sg])
    then show "cleared i (abort_fires s w)"
      by (intro cleared_after inv_abort_fires inv) simp
  qed
  have se: "\<not> opt_onError options \<longrightarrow>
        deliveryDispositionMap (sender_emit ''sender_error'' ctx w) = []
      \<and> timers (sender_emit ''sender_error'' ctx w) = []"
    unfolding w using error_emit(1)[of options ctx steps] onError_drains[OF inv_run] by simp
  have ss: "\<not> opt_onSessionError options \<longrightarrow>
        deliveryDispositionMap (session_emit ''session_error'' ctx w) = []
      \<and> timers (session_emit ''session_error'' ctx w) = []"
    unfolding w using error_emit(2)[of options ctx steps] onError_drains[OF inv_run] by simp
  show ?thesis
    by (intro conjI) (rule m t l e acc rej rel md tm ab se ss)+
qed


theorem delivery_map_invariant_witness:
  "map fst (deliveryDispositionMap (run two_pending_steps default_options)) = [0, 1]
   \<and> cleared 0 (sender_emit ''rejected'' rejected_0 (run two_pending_steps default_options))
   \<and> map_of (timers (run two_pending_steps default_options)) 0
       = Some \<lparr> t_delay = 20000, t_delivery = 0, t_call = 0 \<rparr>
   \<and> cleared 0 (timer_fires 0 (run two_pending_steps default_options))
   \<and> map_of (deliveryDispositionMap (run two_pending_steps default_options)) 1
       = Some \<lparr> p_call = 1, p_signal = Some 7, p_timer = 1 \<rparr>
   \<and> cleared 1 (abort_fires 7 (run two_pending_steps default_options))
   \<and> deliveryDispositionMap
       (sender_emit ''sender_error'' rejected_0 (run two_pending_steps default_options)) = []
   \<and> awaiting (run example_steps default_options) = []
   \<and> deliveryDispositionMap (run example_steps default_options) = []
   \<and> timers (run example_steps default_options) = []"
proof -
  have k: "map fst (deliveryDispositionMap (run two_pending_steps default_options)) = [0, 1]"
    and t0: "map_of (timers (run two_pending_steps default_options)) 0
       = Some \<lparr> t_delay = 20000, t_delivery = 0, t_call = 0 \<rparr>"
    and e1: "map_of (deliveryDispositionMap (run two_pending_steps default_options)) 1
       = Some \<lparr> p_call = 1, p_signal = Some 7, p_timer = 1 \<rparr>"
    by (simp_all add: two_pending_steps_def sender_defs)
  have d: "ctx_delivery rejected_0 = 0" "\<not> opt_onError default_options"
    by (simp_all add: rejected_0_def default_options_def)
  have a: "awaiting (run example_steps default_options) = []"
    by (simp add: example_steps_def sender_defs)
  show ?thesis
    using k t0 e1 d a
      delivery_map_invariant[OF refl, of two_pending_steps default_options rejected_0 0
        "\<lparr> t_delay = 20000, t_delivery = 0, t_call = 0 \<rparr>" 1
        "\<lparr> p_call = 1, p_signal = Some 7, p_timer = 1 \<rparr>" 7]
      delivery_map_invariant[OF refl, of example_steps default_options]
    by simp
qed

text \<open>
  Claim C2 as stated fails: on a sender created with the caller's own \<^verbatim>\<open>onError\<close>, a
  \<^verbatim>\<open>sender_error\<close> event with two sends pending settles nothing and leaves both entries in
  the map.
\<close>

theorem own_handler_keeps_entries:
  "map fst (deliveryDispositionMap
     (sender_emit ''sender_error'' link_error_context (run two_pending_steps own_handlers_options)))
     = [0, 1]
   \<and> \<not> cleared 0
       (sender_emit ''sender_error'' link_error_context (run two_pending_steps own_handlers_options))
   \<and> settlements
       (sender_emit ''sender_error'' link_error_context (run two_pending_steps own_handlers_options))
       = []"
  by (simp add: two_pending_steps_def own_handlers_options_def link_error_context_def
      cleared_def sender_defs)

section \<open>Properties of Connection and Session\<close>

lemmas conn_defs =
  new_Connection_def initializeEventListeners_def connection_events_def session_events_def
  receiver_events_def sender_events_def new_Session_def new_Link_def on_event_def once_def
  remove_last_def registered_def removeListener_def removeAllListeners_def set_timeout_def
  clear_timeout_def add_abort_listener_def remove_abort_listener_def resolve_def reject_def
  add_action_def engine_def emit_translated_def emitEvent_def entity_of_def removals_def
  removeListeners_def settled_hook_def guard_resolve_def guard_reject_def reason_def
  disconnect_error_def abort_message_def onOpen_def onClose_def close_onError_def
  onDisconnected_def abort_action_def guard_onAbort_def actionAfterTimeout_def invoke_def
  emit_def no_context_def timeout_fires_def signal_fires_def watch_signal_def isOpen_def
  Connection_open_def Connection_close_def Connection_createSession_def Session_isOpen_def
  Session_close_def add_handlers_def Session_createReceiver_def awaitable_constructor_def
  session_handlers_def receiver_handlers_def sender_handlers_def awaitable_link_handlers_def
  awaitable_session_handlers_def
  createSender_def Session_createSender_def Session_createAwaitableSender_def
  disconnected_listener_count_def is_guard_def guard_listeners_def outcomes_of_def
  connection_opened_def session_opened_def Let_def indexOf_def
  createAbortError_def

text \<open>The worlds used by the examples, written out.\<close>

lemma new_Connection_value:
  "new_Connection None =
     \<lparr>conn_is_open = False, open_sessions = {},
      operationTimeoutInSeconds = 60,
      listeners =
      [(RheaConnection, ''connection_open'', False,
      ReEmit ConnectionObj ''connection_open''),
      (RheaConnection, ''connection_close'', False,
      ReEmit ConnectionObj ''connection_close''),
      (RheaConnection, ''connection_error'', False,
      ReEmit ConnectionObj ''connection_error''),
      (RheaConnection, ''protocol_error'', False,
      ReEmit ConnectionObj ''protocol_error''),
      (RheaConnection, ''error'', False,
      ReEmit ConnectionObj ''error''),
      (RheaConnection, ''disconnected'', False,
      ReEmit ConnectionObj ''disconnected''),
      (RheaConnection, ''settled'', False,
      ReEmit ConnectionObj ''settled''),
      (RheaConnection, ''sender_error'', False,
      ReEmit ConnectionObj ''sender_error''),
      (RheaConnection, ''sender_close'', False,
      ReEmit ConnectionObj ''sender_close''),
      (RheaConnection, ''receiver_error'', False,
      ReEmit ConnectionObj ''receiver_error''),
      (RheaConnection, ''receiver_close'', False,
      ReEmit ConnectionObj ''receiver_close''),
      (RheaConnection, ''session_error'', False,
      ReEmit ConnectionObj ''session_error''),
      (RheaConnection, ''session_close'', False,
      ReEmit ConnectionObj ''session_close'')],
      timeouts = [], next_timeout = 0, signals_fired = {},
      signal_listeners = [], outcomes = [], next_promise = 0,
      engine_calls = [], actionInitiated = (\<lambda>_. 0), next_object = 0,
      emitted = [],
      subscriptions =
      [(RheaConnection, ''connection_open''),
      (RheaConnection, ''connection_close''),
      (RheaConnection, ''connection_error''),
      (RheaConnection, ''protocol_error''), (RheaConnection, ''error''),
      (RheaConnection, ''disconnected''), (RheaConnection, ''settled''),
      (RheaConnection, ''sender_error''),
      (RheaConnection, ''sender_close''),
      (RheaConnection, ''receiver_error''),
      (RheaConnection, ''receiver_close''),
      (RheaConnection, ''session_error''),
      (RheaConnection, ''session_close'')]\<rparr>"
  by (simp add: new_Connection_def initializeEventListeners_def connection_events_def on_event_def)

lemma open_connection_value:
  "open_connection =
     \<lparr>conn_is_open = True, open_sessions = {},
      operationTimeoutInSeconds = 60,
      listeners =
      [(RheaConnection, ''connection_open'', False,
      ReEmit ConnectionObj ''connection_open''),
      (RheaConnection, ''connection_close'', False,
      ReEmit ConnectionObj ''connection_close''),
      (RheaConnection, ''connection_error'', False,
      ReEmit ConnectionObj ''connection_error''),
      (RheaConnection, ''protocol_error'', False,
      ReEmit ConnectionObj ''protocol_error''),
      (RheaConnection, ''error'', False,
      ReEmit ConnectionObj ''error''),
      (RheaConnection, ''disconnected'', False,
      ReEmit ConnectionObj ''disconnected''),
      (RheaConnection, ''settled'', False,
      ReEmit ConnectionObj ''settled''),
      (RheaConnection, ''sender_error'', False,
      ReEmit ConnectionObj ''sender_error''),
      (RheaConnection, ''sender_close'', False,
      ReEmit ConnectionObj ''sender_close''),
      (RheaConnection, ''receiver_error'', False,
      ReEmit ConnectionObj ''receiver_error''),
      (RheaConnection, ''receiver_close'', False,
      ReEmit ConnectionObj ''receiver_close''),
      (RheaConnection, ''session_error'', False,
      ReEmit ConnectionObj ''session_error''),
      (RheaConnection, ''session_close'', False,
      ReEmit ConnectionObj ''session_close'')],
      timeouts = [], next_timeout = Suc 0, signals_fired = {},
      signal_listeners = [], outcomes = [(0, Resolved TheConnection)],
      next_promise = Suc 0, engine_calls = [Connect],
      actionInitiated = (\<lambda>_. 0)(ConnectionObj := 0), next_object = 0,
      emitted = [(ConnectionObj, ''connection_open'')],
      subscriptions =
      [(RheaConnection, ''connection_open''),
      (RheaConnection, ''connection_close''),
      (RheaConnection, ''connection_error''),
      (RheaConnection, ''protocol_error''), (RheaConnection, ''error''),
      (RheaConnection, ''disconnected''), (RheaConnection, ''settled''),
      (RheaConnection, ''sender_error''),
      (RheaConnection, ''sender_close''),
      (RheaConnection, ''receiver_error''),
      (RheaConnection, ''receiver_close''),
      (RheaConnection, ''session_error''),
      (RheaConnection, ''session_close''),
      (RheaConnection, ''connection_open''),
      (RheaConnection, ''connection_close''),
      (RheaConnection, ''disconnected'')]\<rparr>"
  unfolding open_connection_def new_Connection_value
  by (simp add: conn_defs)

lemma open_session_value:
  "open_session =
     \<lparr>conn_is_open = True, open_sessions = {0},
      operationTimeoutInSeconds = 60,
      listeners =
      [(RheaConnection, ''connection_open'', False,
      ReEmit ConnectionObj ''connection_open''),
      (RheaConnection, ''connection_close'', False,
      ReEmit ConnectionObj ''connection_close''),
      (RheaConnection, ''connection_error'', False,
      ReEmit ConnectionObj ''connection_error''),
      (RheaConnection, ''protocol_error'', False,
      ReEmit ConnectionObj ''protocol_error''),
      (RheaConnection, ''error'', False,
      ReEmit ConnectionObj ''error''),
      (RheaConnection, ''disconnected'', False,
      ReEmit ConnectionObj ''disconnected''),
      (RheaConnection, ''settled'', False,
      ReEmit ConnectionObj ''settled''),
      (RheaConnection, ''sender_error'', False,
      ReEmit ConnectionObj ''sender_error''),
      (RheaConnection, ''sender_close'', False,
      ReEmit ConnectionObj ''sender_close''),
      (RheaConnection, ''receiver_error'', False,
      ReEmit ConnectionObj ''receiver_error''),
      (RheaConnection, ''receiver_close'', False,
      ReEmit ConnectionObj ''receiver_close''),
      (RheaConnection, ''session_error'', False,
      ReEmit ConnectionObj ''session_error''),
      (RheaConnection, ''session_close'', False,
      ReEmit ConnectionObj ''session_close''),
      (RheaSession 0, ''session_open'', False,
      ReEmit (SessionObj 0) ''session_open''),
      (RheaSession 0, ''session_error'', False,
      ReEmit (SessionObj 0) ''session_error''),
      (RheaSession 0, ''session_close'', False,
      ReEmit (SessionObj 0) ''session_close''),
      (RheaSession 0, ''settled'', False,
      ReEmit (SessionObj 0) ''settled''),
      (RheaSession 0, ''sender_error'', False,
      ReEmit (SessionObj 0) ''sender_error''),
      (RheaSession 0, ''sender_close'', False,
      ReEmit (SessionObj 0) ''sender_close''),
      (RheaSession 0, ''receiver_error'', False,
      ReEmit (SessionObj 0) ''receiver_error''),
      (RheaSession 0, ''receiver_close'', False,
      ReEmit (SessionObj 0) ''receiver_close'')],
      timeouts = [], next_timeout = Suc (Suc 0), signals_fired = {},
      signal_listeners = [],
      outcomes =
      [(0, Resolved TheConnection), (Suc 0, Resolved (TheSession 0))],
      next_promise = Suc (Suc 0),
      engine_calls = [Connect, CreateSessionCall 0, Begin 0],
      actionInitiated = (\<lambda>_. 0)(ConnectionObj := 0, SessionObj 0 := 0),
      next_object = Suc 0,
      emitted =
      [(ConnectionObj, ''connection_open''),
      (SessionObj 0, ''session_open'')],
      subscriptions =
      [(RheaConnection, ''connection_open''),
      (RheaConnection, ''connection_close''),
      (RheaConnection, ''connection_error''),
      (RheaConnection, ''protocol_error''), (RheaConnection, ''error''),
      (RheaConnection, ''disconnected''), (RheaConnection, ''settled''),
      (RheaConnection, ''sender_error''),
      (RheaConnection, ''sender_close''),
      (RheaConnection, ''receiver_error''),
      (RheaConnection, ''receiver_close''),
      (RheaConnection, ''session_error''),
      (RheaConnection, ''session_close''),
      (RheaConnection, ''connection_open''),
      (RheaConnection, ''connection_close''),
      (RheaConnection, ''disconnected''),
      (RheaSession 0, ''session_open''),
      (RheaSession 0, ''session_error''),
      (RheaSession 0, ''session_close''), (RheaSession 0, ''settled''),
      (RheaSession 0, ''sender_error''),
      (RheaSession 0, ''sender_close''),
      (RheaSession 0, ''receiver_error''),
      (RheaSession 0, ''receiver_close''),
      (RheaSession 0, ''session_open''),
      (RheaSession 0, ''session_close''),
      (RheaConnection, ''disconnected'')]\<rparr>"
  unfolding open_session_def open_connection_value
  by (simp add: conn_defs)

text \<open>
  Claim C10. \<^verbatim>\<open>open()\<close> on a connection that is open already only creates the promise and
  resolves it with the connection: no listener, no timer, no call of the engine, whatever
  the abort signal. \<^verbatim>\<open>close()\<close> on a connection that is not open only creates the promise
  and resolves it.
\<close>

theorem open_close_idempotent:
  "(isOpen w \<longrightarrow>
      Connection_open abortSig w
        = w\<lparr> next_promise := Suc (next_promise w),
              outcomes := outcomes w @ [(next_promise w, Resolved TheConnection)] \<rparr>)
   \<and> (\<not> isOpen w \<longrightarrow>
      Connection_close abortSig w
        = w\<lparr> next_promise := Suc (next_promise w),
              outcomes := outcomes w @ [(next_promise w, Resolved Void)] \<rparr>)"
  by (simp add: Connection_open_def Connection_close_def isOpen_def resolve_def Let_def)

theorem open_close_idempotent_witness:
  "isOpen open_connection
   \<and> outcomes_of (Connection_open None open_connection) (next_promise open_connection)
       = [Resolved TheConnection]
   \<and> engine_calls (Connection_open None open_connection) = engine_calls open_connection
   \<and> \<not> isOpen (new_Connection None)
   \<and> outcomes_of (Connection_close None (new_Connection None)) 0 = [Resolved Void]
   \<and> engine_calls (Connection_close None (new_Connection None)) = []"
proof -
  have o: "isOpen open_connection" by (simp add: open_connection_value isOpen_def)
  have c: "\<not> isOpen (new_Connection None)" by (simp add: new_Connection_value isOpen_def)
  have e: "engine_calls (new_Connection None) = []" "outcomes (new_Connection None) = []"
    "next_promise (new_Connection None) = 0"
    by (simp_all add: new_Connection_value)
  have n: "outcomes_of open_connection (next_promise open_connection) = []"
    by (simp add: open_connection_value outcomes_of_def)
  show ?thesis
    using o c e n open_close_idempotent[of open_connection None]
      open_close_idempotent[of "new_Connection None" None]
    by (simp add: outcomes_of_def)
qed

text \<open>
  Claim C8. \<^verbatim>\<open>createReceiver\<close> with exactly one of \<^verbatim>\<open>onMessage\<close> and \<^verbatim>\<open>onError\<close> and a
  \<^verbatim>\<open>credit_window\<close> other than 0 (a missing one included) only creates the promise and
  rejects it, within the call, with the \<^verbatim>\<open>Error\<close> that asks for both handlers or a credit
  window of 0: nothing is attached, registered or timed.
\<close>

theorem receiver_configuration_guard:
  "((r_onMessage opts \<and> \<not> r_onError opts) \<or> (r_onError opts \<and> \<not> r_onMessage opts))
   \<and> r_credit_window opts \<noteq> Some 0 \<longrightarrow>
     Session_createReceiver n (Some opts) w
       = w\<lparr> next_promise := Suc (next_promise w),
             outcomes := outcomes w
               @ [(next_promise w, Rejected (PlainError receiver_config_message))] \<rparr>"
  by (simp add: Session_createReceiver_def reject_def Let_def)

theorem receiver_configuration_guard_witness:
  "r_onMessage only_onMessage \<and> \<not> r_onError only_onMessage
   \<and> r_credit_window only_onMessage \<noteq> Some 0
   \<and> outcomes (Session_createReceiver 0 (Some only_onMessage) open_session)
       = outcomes open_session @ [(2, Rejected (PlainError receiver_config_message))]
   \<and> engine_calls (Session_createReceiver 0 (Some only_onMessage) open_session)
       = engine_calls open_session
   \<and> subscriptions (Session_createReceiver 0 (Some only_onMessage) open_session)
       = subscriptions open_session"
proof -
  have h: "r_onMessage only_onMessage" "\<not> r_onError only_onMessage"
    "r_credit_window only_onMessage \<noteq> Some 0"
    by (simp_all add: only_onMessage_def)
  have p: "next_promise open_session = 2"
    by (simp add: open_session_value)
  show ?thesis
    using h p receiver_configuration_guard[of only_onMessage 0 open_session]
    by simp
qed

lemma indexOf_from_found:
  "indexOf_from i s pat \<noteq> - 1 \<longleftrightarrow> (\<exists>xs ys. s = xs @ pat @ ys)"
proof (induction s arbitrary: i)
  case Nil
  then show ?case by auto
next
  case (Cons c cs)
  show ?case
  proof (cases "take (length pat) (c # cs) = pat")
    case True
    then have "c # cs = [] @ pat @ drop (length pat) (c # cs)"
      by (metis append_Nil append_take_drop_id)
    then have "\<exists>xs ys. c # cs = xs @ pat @ ys" by blast
    with True show ?thesis by simp
  next
    case False
    have "(\<exists>xs ys. c # cs = xs @ pat @ ys) \<longleftrightarrow> (\<exists>xs ys. cs = xs @ pat @ ys)"
    proof
      assume "\<exists>xs ys. c # cs = xs @ pat @ ys"
      then obtain xs ys where e: "c # cs = xs @ pat @ ys" by blast
      show "\<exists>xs ys. cs = xs @ pat @ ys"
      proof (cases xs)
        case Nil
        with e have "take (length pat) (c # cs) = pat" by simp
        with False show ?thesis by simp
      next
        case (Cons x xs')
        with e have "cs = xs' @ pat @ ys" by simp
        then show ?thesis by blast
      qed
    next
      assume "\<exists>xs ys. cs = xs @ pat @ ys"
      then obtain xs ys where "cs = xs @ pat @ ys" by blast
      then have "c # cs = (c # xs) @ pat @ ys" by simp
      then show "\<exists>xs ys. c # cs = xs @ pat @ ys" by blast
    qed
    with False Cons.IH[of "Suc i"] show ?thesis by simp
  qed
qed

lemma indexOf_contains: "indexOf s pat \<noteq> - 1 \<longleftrightarrow> (\<exists>xs ys. s = xs @ pat @ ys)"
  by (simp add: indexOf_def indexOf_from_found)

text \<open>
  Claim C9. When the event name contains \<^verbatim>\<open>error\<close> and \<^verbatim>\<open>actionInitiated\<close> of the emitter
  is greater than zero, \<^verbatim>\<open>emitEvent\<close> emits nothing now and queues one timeout without a
  delay, and the wrapper emits the event when that timeout fires. Otherwise the wrapper
  emits the event within the call and nothing is queued.
\<close>

theorem error_events_deferred:
  "((\<exists>xs ys. ev = xs @ ''error'' @ ys) \<and> actionInitiated w em > 0 \<longrightarrow>
      emitted (emitEvent em ev w) = emitted w
    \<and> timeouts (emitEvent em ev w) = timeouts w @ [(next_timeout w, None, EmitLater em ev)]
    \<and> (next_timeout w \<notin> fst ` set (timeouts w) \<longrightarrow>
         emitted (timeout_fires (next_timeout w) (emitEvent em ev w)) = emitted w @ [(em, ev)]
       \<and> timeouts (timeout_fires (next_timeout w) (emitEvent em ev w)) = timeouts w))
   \<and> (\<not> ((\<exists>xs ys. ev = xs @ ''error'' @ ys) \<and> actionInitiated w em > 0) \<longrightarrow>
      emitEvent em ev w = w\<lparr> emitted := emitted w @ [(em, ev)] \<rparr>)"
proof -
  have fresh: "map_of (timeouts w) (next_timeout w) = None
      \<and> filter (\<lambda>t. fst t \<noteq> next_timeout w) (timeouts w) = timeouts w"
    if "next_timeout w \<notin> fst ` set (timeouts w)"
    using that by (force simp: map_of_eq_None_iff filter_id_conv)
  define later where "later \<longleftrightarrow> (\<exists>xs ys. ev = xs @ ''error'' @ ys) \<and> actionInitiated w em > 0"
  have cond: "(indexOf ev ''error'' \<noteq> - 1 \<and> actionInitiated w em > 0) = later"
    unfolding later_def using indexOf_contains[of ev "''error''"] by blast
  have a: "emitEvent em ev w = set_timeout None (EmitLater em ev) w" if later
    unfolding emitEvent_def cond using that by simp
  have b: "emitEvent em ev w = emit_translated em ev w" if "\<not> later"
    unfolding emitEvent_def cond using that by simp
  have "later \<longrightarrow>
      emitted (emitEvent em ev w) = emitted w
    \<and> timeouts (emitEvent em ev w) = timeouts w @ [(next_timeout w, None, EmitLater em ev)]
    \<and> (next_timeout w \<notin> fst ` set (timeouts w) \<longrightarrow>
         emitted (timeout_fires (next_timeout w) (emitEvent em ev w)) = emitted w @ [(em, ev)]
       \<and> timeouts (timeout_fires (next_timeout w) (emitEvent em ev w)) = timeouts w)"
    using a fresh
    by (auto simp: set_timeout_def emit_translated_def timeout_fires_def clear_timeout_def
        map_add_def)
  moreover have "\<not> later \<longrightarrow> emitEvent em ev w = w\<lparr> emitted := emitted w @ [(em, ev)] \<rparr>"
    using b by (simp add: emit_translated_def)
  ultimately show ?thesis
    unfolding later_def by blast
qed

theorem error_events_deferred_witness:
  "(\<exists>xs ys. ''session_error'' = xs @ ''error'' @ ys)
   \<and> actionInitiated busy_session_world (SessionObj 0) > 0
   \<and> emitted (emitEvent (SessionObj 0) ''session_error'' busy_session_world) = []
   \<and> timeouts (emitEvent (SessionObj 0) ''session_error'' busy_session_world)
       = [(0, None, EmitLater (SessionObj 0) ''session_error'')]
   \<and> emitted (timeout_fires 0 (emitEvent (SessionObj 0) ''session_error'' busy_session_world))
       = [(SessionObj 0, ''session_error'')]
   \<and> emitted (emitEvent (SessionObj 0) ''session_close'' busy_session_world)
       = [(SessionObj 0, ''session_close'')]
   \<and> emitted (emitEvent (SessionObj 0) ''session_error'' (new_Connection None))
       = [(SessionObj 0, ''session_error'')]"
proof -
  have "''session_error'' = ''session_'' @ ''error'' @ []" by simp
  then have sub: "\<exists>xs ys. ''session_error'' = xs @ ''error'' @ ys" by blast
  have "indexOf ''session_close'' ''error'' = - 1" by (simp add: indexOf_def)
  then have nsub: "\<not> (\<exists>xs ys. ''session_close'' = xs @ ''error'' @ ys)"
    using indexOf_contains[of "''session_close''" "''error''"] by simp
  have busy: "actionInitiated busy_session_world (SessionObj 0) = 1"
    "timeouts busy_session_world = []" "next_timeout busy_session_world = 0"
    "emitted busy_session_world = []"
    by (simp_all add: busy_session_world_def add_action_def new_Connection_value)
  have idle: "actionInitiated (new_Connection None) (SessionObj 0) = 0"
    "emitted (new_Connection None) = []"
    by (simp_all add: new_Connection_value)
  show ?thesis
    using sub nsub busy idle
      error_events_deferred[of "''session_error''" busy_session_world "SessionObj 0"]
      error_events_deferred[of "''session_close''" busy_session_world "SessionObj 0"]
      error_events_deferred[of "''session_error''" "new_Connection None" "SessionObj 0"]
    by simp
qed

text \<open>
  In any world, \<^verbatim>\<open>onDisconnected\<close> of a \<^verbatim>\<open>close\<close> operation records no outcome: it only runs
  \<^verbatim>\<open>removeListeners\<close>.
\<close>

lemma close_onDisconnected_no_outcome:
  assumes "g_kind g = ConnectionClose \<or> g_kind g = SessionClose"
  shows "outcomes (onDisconnected g ctx w) = outcomes w"
proof -
  have fold_rm: "outcomes (fold (\<lambda>r. removeListener (fst r) (fst (snd r)) (snd (snd r))) rs v)
      = outcomes v" for rs v
    by (induction rs arbitrary: v) (simp_all add: removeListener_def)
  have "outcomes (removeListeners g w) = outcomes w"
    by (simp add: removeListeners_def remove_abort_listener_def fold_rm add_action_def
        clear_timeout_def split: option.splits)
  with assms show ?thesis
    by (auto simp: onDisconnected_def)
qed

text \<open>
  Claim C6 at \<^verbatim>\<open>close()\<close> of an open connection, and of an open session, followed by
  \<^verbatim>\<open>disconnected\<close>: the promise of the close is neither resolved nor rejected, the timer is
  cleared and no closure of the operation is left registered, so nothing can settle it
  later. When the close event arrives instead, the promise is resolved.
\<close>

theorem close_disconnected_never_settles:
  "outcomes_of
     (emit RheaConnection ''disconnected'' no_context (Connection_close None open_connection)) 1 = []
   \<and> timeouts
       (emit RheaConnection ''disconnected'' no_context (Connection_close None open_connection)) = []
   \<and> guard_listeners
       (emit RheaConnection ''disconnected'' no_context (Connection_close None open_connection)) = []
   \<and> outcomes_of
       (emit RheaConnection ''connection_close'' no_context (Connection_close None open_connection)) 1
       = [Resolved Void]
   \<and> outcomes_of
       (emit RheaConnection ''disconnected'' no_context (Session_close 0 None open_session)) 2 = []
   \<and> timeouts
       (emit RheaConnection ''disconnected'' no_context (Session_close 0 None open_session)) = []
   \<and> guard_listeners
       (emit RheaConnection ''disconnected'' no_context (Session_close 0 None open_session)) = []
   \<and> outcomes_of
       (emit (RheaSession 0) ''session_close'' no_context (Session_close 0 None open_session)) 2
       = [Resolved Void]"
  unfolding open_connection_value open_session_value
  by (simp add: conn_defs)

lemma remove_first_append:
  "remove_first P (xs @ ys)
     = (if list_ex P xs then remove_first P xs @ ys else xs @ remove_first P ys)"
  by (induction xs) auto

lemma remove_last_append:
  "remove_last P (xs @ ys)
     = (if list_ex P ys then xs @ remove_last P ys else remove_last P xs @ ys)"
  by (simp add: remove_last_def remove_first_append list_ex_iff)

lemma remove_last_Nil: "remove_last P [] = []"
  by (simp add: remove_last_def)

lemma remove_last_Cons:
  "remove_last P (y # ys)
     = (if list_ex P ys then y # remove_last P ys else if P y then ys else y # ys)"
  using remove_last_append[of P "[y]" ys] by (simp add: remove_last_def)

lemma filter_remove_first:
  "(\<And>x. P x \<Longrightarrow> \<not> Q x) \<Longrightarrow> filter Q (remove_first P xs) = filter Q xs"
  by (induction xs) auto

lemma filter_remove_last:
  "(\<And>x. P x \<Longrightarrow> \<not> Q x) \<Longrightarrow> filter Q (remove_last P xs) = filter Q xs"
  using filter_remove_first[of P Q "rev xs"]
  by (simp add: remove_last_def rev_filter[symmetric])

lemmas guard_defs =
  on_event_def once_def registered_def removeListener_def removeAllListeners_def set_timeout_def
  clear_timeout_def add_abort_listener_def remove_abort_listener_def resolve_def reject_def
  add_action_def engine_def entity_of_def removals_def removeListeners_def settled_hook_def
  guard_resolve_def guard_reject_def abort_message_def abort_action_def guard_onAbort_def
  watch_signal_def isOpen_def Session_isOpen_def Let_def createAbortError_def
  remove_last_append remove_last_Nil remove_last_Cons

lemma aborted_Connection_open:
  assumes "s \<in> signals_fired w" "\<not> isOpen w"
  shows "outcomes (Connection_open (Some s) w)
           = outcomes w @ [(next_promise w,
                Rejected (AbortError ''Connection open request has been cancelled.''))]"
    and "new_subscriptions w (Connection_open (Some s) w)
           = [(RheaConnection, ''connection_open''), (RheaConnection, ''connection_close''),
              (RheaConnection, ''disconnected'')]"
    and "listeners (Connection_open (Some s) w) = listeners w"
    and "timeouts (Connection_open (Some s) w)
           = filter (\<lambda>t. fst t \<noteq> next_timeout w) (timeouts w)"
    and "set (signal_listeners (Connection_open (Some s) w)) \<subseteq> set (signal_listeners w)"
    and "engine_calls (Connection_open (Some s) w)
           = engine_calls w @ [Connect, ConnectionCloseCall]"
  using assms
  by (auto simp: Connection_open_def new_subscriptions_def guard_defs
      dest: set_remove1_subset[THEN subsetD])

lemma aborted_Connection_close:
  assumes "s \<in> signals_fired w" "isOpen w"
  shows "outcomes (Connection_close (Some s) w)
           = outcomes w @ [(next_promise w,
                Rejected (AbortError ''Connection close request has been cancelled.''))]"
    and "new_subscriptions w (Connection_close (Some s) w)
           = [(RheaConnection, ''connection_close''), (RheaConnection, ''connection_error''),
              (RheaConnection, ''disconnected'')]"
    and "listeners (Connection_close (Some s) w) = listeners w"
    and "timeouts (Connection_close (Some s) w)
           = filter (\<lambda>t. fst t \<noteq> next_timeout w) (timeouts w)"
    and "set (signal_listeners (Connection_close (Some s) w)) \<subseteq> set (signal_listeners w)"
    and "engine_calls (Connection_close (Some s) w) = engine_calls w @ [ConnectionCloseCall]"
  using assms
  by (auto simp: Connection_close_def new_subscriptions_def guard_defs
      dest: set_remove1_subset[THEN subsetD])

lemma aborted_Session_close:
  assumes "s \<in> signals_fired w" "Session_isOpen n w"
  shows "outcomes (Session_close n (Some s) w)
           = outcomes w @ [(next_promise w,
                Rejected (AbortError ''Session close request has been cancelled.''))]"
    and "new_subscriptions w (Session_close n (Some s) w)
           = [(RheaSession n, ''session_close''), (RheaSession n, ''session_error''),
              (RheaConnection, ''disconnected'')]"
    and "listeners (Session_close n (Some s) w)
           = filter (\<lambda>r. fst r \<noteq> SessionObj n) (listeners w)"
    and "timeouts (Session_close n (Some s) w)
           = filter (\<lambda>t. fst t \<noteq> next_timeout w) (timeouts w)"
    and "set (signal_listeners (Session_close n (Some s) w)) \<subseteq> set (signal_listeners w)"
    and "engine_calls (Session_close n (Some s) w) = engine_calls w @ [SessionCloseCall n]"
  using assms
  by (auto simp: Session_close_def new_subscriptions_def guard_defs
      dest: set_remove1_subset[THEN subsetD])

lemma initializeEventListeners_fields:
  "listeners (initializeEventListeners rhea wrapper evs w)
     = listeners w @ map (\<lambda>ev. (rhea, ev, False, ReEmit wrapper ev)) evs"
  "subscriptions (initializeEventListeners rhea wrapper evs w)
     = subscriptions w @ map (\<lambda>ev. (rhea, ev)) evs"
  "timeouts (initializeEventListeners rhea wrapper evs w) = timeouts w"
  "next_timeout (initializeEventListeners rhea wrapper evs w) = next_timeout w"
  "signal_listeners (initializeEventListeners rhea wrapper evs w) = signal_listeners w"
  "signals_fired (initializeEventListeners rhea wrapper evs w) = signals_fired w"
  "outcomes (initializeEventListeners rhea wrapper evs w) = outcomes w"
  "engine_calls (initializeEventListeners rhea wrapper evs w) = engine_calls w"
  "next_promise (initializeEventListeners rhea wrapper evs w) = next_promise w"
  "next_object (initializeEventListeners rhea wrapper evs w) = next_object w"
  "operationTimeoutInSeconds (initializeEventListeners rhea wrapper evs w)
     = operationTimeoutInSeconds w"
  "actionInitiated (initializeEventListeners rhea wrapper evs w) = actionInitiated w"
  "conn_is_open (initializeEventListeners rhea wrapper evs w) = conn_is_open w"
  "open_sessions (initializeEventListeners rhea wrapper evs w) = open_sessions w"
  "emitted (initializeEventListeners rhea wrapper evs w) = emitted w"
  unfolding initializeEventListeners_def
  by (induction evs arbitrary: w) (simp_all add: on_event_def)

lemma aborted_createSession:
  assumes "s \<in> signals_fired w"
  shows "outcomes (Connection_createSession (Some s) w)
           = outcomes w @ [(next_promise w,
                Rejected (AbortError ''Create session request has been cancelled.''))]"
    and "(RheaConnection, ''disconnected'')
           \<in> set (new_subscriptions w (Connection_createSession (Some s) w))"
    and "disconnected_listener_count (Connection_createSession (Some s) w)
           = disconnected_listener_count w"
    and "guard_listeners (Connection_createSession (Some s) w) = guard_listeners w"
    and "timeouts (Connection_createSession (Some s) w)
           = filter (\<lambda>t. fst t \<noteq> next_timeout w) (timeouts w)"
    and "set (signal_listeners (Connection_createSession (Some s) w)) \<subseteq> set (signal_listeners w)"
    and "engine_calls (Connection_createSession (Some s) w)
           = engine_calls w
             @ [CreateSessionCall (next_object w), Begin (next_object w),
                SessionCloseCall (next_object w)]"
  using assms
  by (auto simp: Connection_createSession_def new_Session_def new_subscriptions_def
      initializeEventListeners_fields disconnected_listener_count_def guard_listeners_def
      is_guard_def guard_defs list_ex_iff
      dest: set_remove1_subset[THEN subsetD])


lemma add_handlers_fields:
  "listeners (add_handlers em hs w)
     = listeners w @ map (\<lambda>h. (em, fst (snd h), False, Handler (snd (snd h)))) (filter fst hs)"
  "subscriptions (add_handlers em hs w)
     = subscriptions w @ map (\<lambda>h. (em, fst (snd h))) (filter fst hs)"
  "timeouts (add_handlers em hs w) = timeouts w"
  "next_timeout (add_handlers em hs w) = next_timeout w"
  "signal_listeners (add_handlers em hs w) = signal_listeners w"
  "signals_fired (add_handlers em hs w) = signals_fired w"
  "outcomes (add_handlers em hs w) = outcomes w"
  "engine_calls (add_handlers em hs w) = engine_calls w"
  "next_promise (add_handlers em hs w) = next_promise w"
  "next_object (add_handlers em hs w) = next_object w"
  "operationTimeoutInSeconds (add_handlers em hs w) = operationTimeoutInSeconds w"
  "actionInitiated (add_handlers em hs w) = actionInitiated w"
  "conn_is_open (add_handlers em hs w) = conn_is_open w"
  "open_sessions (add_handlers em hs w) = open_sessions w"
  "emitted (add_handlers em hs w) = emitted w"
  unfolding add_handlers_def
  by (induction hs arbitrary: w) (simp_all add: on_event_def)

lemma filter_remove_last_disconnected:
  "ev \<noteq> ''disconnected'' \<Longrightarrow>
   filter (\<lambda>r. fst r = RheaConnection \<and> fst (snd r) = ''disconnected'')
     (remove_last (registered em ev f) xs)
   = filter (\<lambda>r. fst r = RheaConnection \<and> fst (snd r) = ''disconnected'') xs"
  by (rule filter_remove_last) (auto simp: registered_def)

lemma aborted_createReceiver:
  assumes "s \<in> signals_fired w" "r_abortSignal opts = Some s"
    and "\<not> (((r_onMessage opts \<and> \<not> r_onError opts) \<or> (r_onError opts \<and> \<not> r_onMessage opts))
            \<and> r_credit_window opts \<noteq> Some 0)"
  shows "outcomes (Session_createReceiver n (Some opts) w)
           = outcomes w @ [(next_promise w,
                Rejected (AbortError ''Create receiver request has been cancelled.''))]"
    and "(RheaConnection, ''disconnected'')
           \<in> set (new_subscriptions w (Session_createReceiver n (Some opts) w))"
    and "disconnected_listener_count (Session_createReceiver n (Some opts) w)
           = disconnected_listener_count w"
    and "guard_listeners (Session_createReceiver n (Some opts) w) = guard_listeners w"
    and "timeouts (Session_createReceiver n (Some opts) w)
           = filter (\<lambda>t. fst t \<noteq> next_timeout w) (timeouts w)"
    and "set (signal_listeners (Session_createReceiver n (Some opts) w)) \<subseteq> set (signal_listeners w)"
    and "engine_calls (Session_createReceiver n (Some opts) w)
           = engine_calls w @ [AttachReceiver n (next_object w), LinkCloseCall (next_object w)]"
  using assms
  by (auto simp: Session_createReceiver_def new_Link_def new_subscriptions_def
      initializeEventListeners_fields add_handlers_fields disconnected_listener_count_def
      guard_listeners_def is_guard_def guard_defs list_ex_iff
      dest: set_remove1_subset[THEN subsetD])




lemma aborted_createSender:
  assumes "s \<in> signals_fired w" "s_abortSignal opts = Some s"
  shows "outcomes (createSender type n (Some opts) w)
           = outcomes w @ [(next_promise w,
                Rejected (AbortError ''Create sender request has been cancelled.''))]"
    and "(RheaConnection, ''disconnected'')
           \<in> set (new_subscriptions w (createSender type n (Some opts) w))"
    and "disconnected_listener_count (createSender type n (Some opts) w)
           = disconnected_listener_count w"
    and "timeouts (createSender type n (Some opts) w)
           = filter (\<lambda>t. fst t \<noteq> next_timeout w) (timeouts w)"
    and "set (signal_listeners (createSender type n (Some opts) w)) \<subseteq> set (signal_listeners w)"
    and "engine_calls (createSender type n (Some opts) w)
           = engine_calls w @ [AttachSender n (next_object w), LinkCloseCall (next_object w)]"
proof -
  note defs = createSender_def new_Link_def new_subscriptions_def awaitable_constructor_def
      initializeEventListeners_fields add_handlers_fields guard_defs
  show "outcomes (createSender type n (Some opts) w)
           = outcomes w @ [(next_promise w,
                Rejected (AbortError ''Create sender request has been cancelled.''))]"
    using assms by (simp add: defs split: SenderType.splits)
  show "(RheaConnection, ''disconnected'')
           \<in> set (new_subscriptions w (createSender type n (Some opts) w))"
    using assms by (simp add: defs split: SenderType.splits)
  show "disconnected_listener_count (createSender type n (Some opts) w)
           = disconnected_listener_count w"
    using assms
    by (simp add: defs disconnected_listener_count_def filter_remove_last_disconnected
        list_ex_iff split: SenderType.splits)
  show "timeouts (createSender type n (Some opts) w)
           = filter (\<lambda>t. fst t \<noteq> next_timeout w) (timeouts w)"
    using assms by (simp add: defs split: SenderType.splits)
  show "set (signal_listeners (createSender type n (Some opts) w)) \<subseteq> set (signal_listeners w)"
    using assms by (simp add: defs set_remove1_subset split: SenderType.splits)
  show "engine_calls (createSender type n (Some opts) w)
           = engine_calls w @ [AttachSender n (next_object w), LinkCloseCall (next_object w)]"
    using assms by (simp add: defs split: SenderType.splits)
qed

lemma aborted_next_timeout:
  "s \<in> signals_fired w \<Longrightarrow> \<not> isOpen w \<Longrightarrow>
     next_timeout (Connection_open (Some s) w) = Suc (next_timeout w)"
  "s \<in> signals_fired w \<Longrightarrow> isOpen w \<Longrightarrow>
     next_timeout (Connection_close (Some s) w) = Suc (next_timeout w)"
  "s \<in> signals_fired w \<Longrightarrow> Session_isOpen n w \<Longrightarrow>
     next_timeout (Session_close n (Some s) w) = Suc (next_timeout w)"
  "s \<in> signals_fired w \<Longrightarrow>
     next_timeout (Connection_createSession (Some s) w) = Suc (next_timeout w)"
  "s \<in> signals_fired w \<Longrightarrow> r_abortSignal ropts = Some s \<Longrightarrow> handlers_consistent ropts \<Longrightarrow>
     next_timeout (Session_createReceiver n (Some ropts) w) = Suc (next_timeout w)"
  "s \<in> signals_fired w \<Longrightarrow> s_abortSignal sopts = Some s \<Longrightarrow>
     next_timeout (createSender type n (Some sopts) w) = Suc (next_timeout w)"
  by (simp_all add: Connection_open_def Connection_close_def Session_close_def
      Connection_createSession_def Session_createReceiver_def createSender_def
      handlers_consistent_def new_Session_def new_Link_def awaitable_constructor_def
      initializeEventListeners_fields add_handlers_fields guard_defs split: SenderType.splits)

lemma rejected_Connection_open:
  assumes "s \<in> signals_fired w" "\<not> isOpen w"
  shows "rejected_in_call ConnectionOpen w (Connection_open (Some s) w)"
  using aborted_Connection_open[OF assms] aborted_next_timeout(1)[OF assms]
  by (simp add: rejected_in_call_def abort_message_def disconnected_listener_count_def)

lemma rejected_Connection_close:
  assumes "s \<in> signals_fired w" "isOpen w"
  shows "rejected_in_call ConnectionClose w (Connection_close (Some s) w)"
  using aborted_Connection_close[OF assms] aborted_next_timeout(2)[OF assms]
  by (simp add: rejected_in_call_def abort_message_def disconnected_listener_count_def)

lemma rejected_Session_close:
  assumes "s \<in> signals_fired w" "Session_isOpen n w"
  shows "rejected_in_call SessionClose w (Session_close n (Some s) w)"
proof -
  have "filter (\<lambda>r. fst r = RheaConnection \<and> fst (snd r) = ''disconnected'')
          (filter (\<lambda>r. fst r \<noteq> SessionObj n) (listeners w))
        = filter (\<lambda>r. fst r = RheaConnection \<and> fst (snd r) = ''disconnected'') (listeners w)"
    by (auto intro: filter_cong)
  then show ?thesis
    using aborted_Session_close[OF assms] aborted_next_timeout(3)[OF assms]
    by (simp add: rejected_in_call_def abort_message_def disconnected_listener_count_def)
qed

lemma rejected_createSession:
  assumes "s \<in> signals_fired w"
  shows "rejected_in_call CreateSession w (Connection_createSession (Some s) w)"
  using aborted_createSession[OF assms] aborted_next_timeout(4)[OF assms]
  by (simp add: rejected_in_call_def abort_message_def)

lemma rejected_createReceiver:
  assumes "s \<in> signals_fired w" "r_abortSignal opts = Some s" "handlers_consistent opts"
  shows "rejected_in_call CreateReceiver w (Session_createReceiver n (Some opts) w)"
  using aborted_createReceiver[OF assms(1,2) assms(3)[unfolded handlers_consistent_def]]
    aborted_next_timeout(5)[OF assms]
  by (simp add: rejected_in_call_def abort_message_def)

lemma rejected_createSender:
  assumes "s \<in> signals_fired w" "s_abortSignal opts = Some s"
  shows "rejected_in_call CreateSender w (createSender type n (Some opts) w)"
  using aborted_createSender[OF assms] aborted_next_timeout(6)[OF assms]
  by (simp add: rejected_in_call_def abort_message_def)

lemma aborted_send:
  "already_aborted (aborted sw) (signal_of options) \<Longrightarrow>
   send msg options sw
     = sw\<lparr> next_call := Suc (next_call sw),
           settlements := settlements sw
             @ [(next_call sw, Rejected (AbortError ''Send request has been cancelled.''))] \<rparr>"
  by (simp add: send_def Let_def settle_def createAbortError_def)

text \<open>
  Claim C7, as amended. With an abort signal that has fired before the call:
  \<^verbatim>\<open>send()\<close> only creates the promise and rejects it with the abort error: no timer, no
  listener, no protocol-level send. Each of \<^verbatim>\<open>open()\<close> on a connection that is not open,
  \<^verbatim>\<open>close()\<close> on an open connection or session, \<^verbatim>\<open>createSession\<close>, \<^verbatim>\<open>createReceiver\<close> with
  consistent handlers and \<^verbatim>\<open>createSender\<close> first registers its listeners, starts its timer
  and calls the engine, and then, within the same call, rejects its promise once with the
  abort error of the operation, clears the timer and leaves no \<^verbatim>\<open>disconnected\<close> listener
  and no abort listener behind; the operations that opened or attached something close it.
\<close>

theorem fired_token_rejects_in_call:
  "(already_aborted (aborted sw) (signal_of options) \<longrightarrow>
      send msg options sw
        = sw\<lparr> next_call := Suc (next_call sw),
              settlements := settlements sw
                @ [(next_call sw, Rejected (AbortError ''Send request has been cancelled.''))] \<rparr>)
   \<and> (s \<in> signals_fired w \<longrightarrow>
        (\<not> isOpen w \<longrightarrow>
           rejected_in_call ConnectionOpen w (Connection_open (Some s) w)
         \<and> listeners (Connection_open (Some s) w) = listeners w
         \<and> engine_calls (Connection_open (Some s) w)
             = engine_calls w @ [Connect, ConnectionCloseCall])
      \<and> (isOpen w \<longrightarrow>
           rejected_in_call ConnectionClose w (Connection_close (Some s) w)
         \<and> listeners (Connection_close (Some s) w) = listeners w
         \<and> engine_calls (Connection_close (Some s) w) = engine_calls w @ [ConnectionCloseCall])
      \<and> (Session_isOpen n w \<longrightarrow>
           rejected_in_call SessionClose w (Session_close n (Some s) w)
         \<and> guard_listeners (Session_close n (Some s) w)
             = filter (\<lambda>r. fst r \<noteq> SessionObj n) (guard_listeners w)
         \<and> engine_calls (Session_close n (Some s) w) = engine_calls w @ [SessionCloseCall n])
      \<and> rejected_in_call CreateSession w (Connection_createSession (Some s) w)
      \<and> guard_listeners (Connection_createSession (Some s) w) = guard_listeners w
      \<and> engine_calls (Connection_createSession (Some s) w)
          = engine_calls w
            @ [CreateSessionCall (next_object w), Begin (next_object w),
               SessionCloseCall (next_object w)]
      \<and> (r_abortSignal ropts = Some s \<and> handlers_consistent ropts \<longrightarrow>
           rejected_in_call CreateReceiver w (Session_createReceiver n (Some ropts) w)
         \<and> guard_listeners (Session_createReceiver n (Some ropts) w) = guard_listeners w
         \<and> engine_calls (Session_createReceiver n (Some ropts) w)
             = engine_calls w @ [AttachReceiver n (next_object w), LinkCloseCall (next_object w)])
      \<and> (s_abortSignal sopts = Some s \<longrightarrow>
           rejected_in_call CreateSender w (createSender type n (Some sopts) w)
         \<and> engine_calls (createSender type n (Some sopts) w)
             = engine_calls w @ [AttachSender n (next_object w), LinkCloseCall (next_object w)]))"
proof -
  have sc: "guard_listeners (Session_close n (Some s) w)
             = filter (\<lambda>r. fst r \<noteq> SessionObj n) (guard_listeners w)"
    if "s \<in> signals_fired w" "Session_isOpen n w"
    using aborted_Session_close(3)[OF that]
    by (simp add: guard_listeners_def) (metis filter_filter conj_commute)
  have cr: "handlers_consistent ropts \<Longrightarrow>
      \<not> (((r_onMessage ropts \<and> \<not> r_onError ropts) \<or> (r_onError ropts \<and> \<not> r_onMessage ropts))
            \<and> r_credit_window ropts \<noteq> Some 0)"
    by (simp add: handlers_consistent_def)
  have send_part:
    "already_aborted (aborted sw) (signal_of options) \<longrightarrow>
      send msg options sw
        = sw\<lparr> next_call := Suc (next_call sw),
              settlements := settlements sw
                @ [(next_call sw, Rejected (AbortError ''Send request has been cancelled.''))] \<rparr>"
    using aborted_send[of sw options msg] by (rule impI)
  have open_part:
    "\<not> isOpen w \<longrightarrow>
       rejected_in_call ConnectionOpen w (Connection_open (Some s) w)
     \<and> listeners (Connection_open (Some s) w) = listeners w
     \<and> engine_calls (Connection_open (Some s) w) = engine_calls w @ [Connect, ConnectionCloseCall]"
    if "s \<in> signals_fired w"
    using rejected_Connection_open[OF that] aborted_Connection_open(3,6)[OF that] by simp
  have close_part:
    "isOpen w \<longrightarrow>
       rejected_in_call ConnectionClose w (Connection_close (Some s) w)
     \<and> listeners (Connection_close (Some s) w) = listeners w
     \<and> engine_calls (Connection_close (Some s) w) = engine_calls w @ [ConnectionCloseCall]"
    if "s \<in> signals_fired w"
    using rejected_Connection_close[OF that] aborted_Connection_close(3,6)[OF that] by simp
  have session_close_part:
    "Session_isOpen n w \<longrightarrow>
       rejected_in_call SessionClose w (Session_close n (Some s) w)
     \<and> guard_listeners (Session_close n (Some s) w)
         = filter (\<lambda>r. fst r \<noteq> SessionObj n) (guard_listeners w)
     \<and> engine_calls (Session_close n (Some s) w) = engine_calls w @ [SessionCloseCall n]"
    if "s \<in> signals_fired w"
    using rejected_Session_close[OF that] sc[OF that] aborted_Session_close(6)[OF that] by simp
  have session_part:
    "rejected_in_call CreateSession w (Connection_createSession (Some s) w)
     \<and> guard_listeners (Connection_createSession (Some s) w) = guard_listeners w
     \<and> engine_calls (Connection_createSession (Some s) w)
         = engine_calls w
           @ [CreateSessionCall (next_object w), Begin (next_object w),
              SessionCloseCall (next_object w)]"
    if "s \<in> signals_fired w"
    using rejected_createSession[OF that] aborted_createSession(4,7)[OF that] by simp
  have receiver_part:
    "r_abortSignal ropts = Some s \<and> handlers_consistent ropts \<longrightarrow>
       rejected_in_call CreateReceiver w (Session_createReceiver n (Some ropts) w)
     \<and> guard_listeners (Session_createReceiver n (Some ropts) w) = guard_listeners w
     \<and> engine_calls (Session_createReceiver n (Some ropts) w)
         = engine_calls w @ [AttachReceiver n (next_object w), LinkCloseCall (next_object w)]"
    if "s \<in> signals_fired w"
    using rejected_createReceiver[OF that] aborted_createReceiver(4,7)[OF that] cr by simp
  have sender_part:
    "s_abortSignal sopts = Some s \<longrightarrow>
       rejected_in_call CreateSender w (createSender type n (Some sopts) w)
     \<and> engine_calls (createSender type n (Some sopts) w)
         = engine_calls w @ [AttachSender n (next_object w), LinkCloseCall (next_object w)]"
    if "s \<in> signals_fired w"
    using rejected_createSender[OF that] aborted_createSender(6)[OF that] by simp
  show ?thesis
    by (rule conjI[OF send_part], rule impI, intro conjI)
      (use open_part close_part session_close_part session_part receiver_part sender_part
        in simp_all)
qed

theorem fired_token_rejects_in_call_witness:
  "already_aborted (aborted aborted_sender) (signal_of aborted_send_options)
   \<and> sent (send ''m'' aborted_send_options aborted_sender) = []
   \<and> settlements (send ''m'' aborted_send_options aborted_sender)
       = [(0, Rejected (AbortError ''Send request has been cancelled.''))]
   \<and> 1 \<in> signals_fired fired_signal_world \<and> \<not> isOpen fired_signal_world
   \<and> outcomes (Connection_open (Some 1) fired_signal_world)
       = [(0, Rejected (AbortError ''Connection open request has been cancelled.''))]
   \<and> 1 \<in> signals_fired fired_open_session \<and> isOpen fired_open_session
   \<and> Session_isOpen 0 fired_open_session
   \<and> outcomes_of (Connection_close (Some 1) fired_open_session) 2
       = [Rejected (AbortError ''Connection close request has been cancelled.'')]
   \<and> outcomes_of (Session_close 0 (Some 1) fired_open_session) 2
       = [Rejected (AbortError ''Session close request has been cancelled.'')]
   \<and> r_abortSignal no_handlers = Some 1 \<and> handlers_consistent no_handlers
   \<and> outcomes_of (Session_createReceiver 0 (Some no_handlers) fired_open_session) 2
       = [Rejected (AbortError ''Create receiver request has been cancelled.'')]"
proof -
  have a: "already_aborted (aborted aborted_sender) (signal_of aborted_send_options)"
    "sent aborted_sender = []" "settlements aborted_sender = []" "next_call aborted_sender = 0"
    by (simp_all add: aborted_sender_def aborted_send_options_def sender_defs)
  have b: "1 \<in> signals_fired fired_signal_world" "\<not> isOpen fired_signal_world"
    "outcomes fired_signal_world = []" "next_promise fired_signal_world = 0"
    by (simp_all add: fired_signal_world_def new_Connection_value isOpen_def)
  have c: "1 \<in> signals_fired fired_open_session" "isOpen fired_open_session"
    "Session_isOpen 0 fired_open_session" "next_promise fired_open_session = 2"
    "outcomes_of fired_open_session 2 = []"
    by (simp_all add: fired_open_session_def open_session_value isOpen_def Session_isOpen_def
        outcomes_of_def)
  have d: "r_abortSignal no_handlers = Some 1" "handlers_consistent no_handlers"
    by (simp_all add: no_handlers_def handlers_consistent_def)
  show ?thesis
    using a b c d
      fired_token_rejects_in_call[of aborted_sender aborted_send_options "''m''" 1
        fired_signal_world 0 no_handlers]
      fired_token_rejects_in_call[of aborted_sender aborted_send_options "''m''" 1
        fired_open_session 0 no_handlers]
    by (simp add: rejected_in_call_def abort_message_def outcomes_of_def)
qed

text \<open>
  Claim C7 as stated fails: \<^verbatim>\<open>open()\<close> with a signal that has fired already registers its
  three listeners on the engine's connection and calls \<^verbatim>\<open>connect()\<close> and then \<^verbatim>\<open>close()\<close> on
  it before the promise is rejected.
\<close>

theorem fired_token_open_registers_listeners:
  "1 \<in> signals_fired fired_signal_world
   \<and> new_subscriptions fired_signal_world (Connection_open (Some 1) fired_signal_world)
       = [(RheaConnection, ''connection_open''), (RheaConnection, ''connection_close''),
          (RheaConnection, ''disconnected'')]
   \<and> engine_calls (Connection_open (Some 1) fired_signal_world) = [Connect, ConnectionCloseCall]
   \<and> outcomes (Connection_open (Some 1) fired_signal_world)
       = [(0, Rejected (AbortError ''Connection open request has been cancelled.''))]"
  unfolding fired_signal_world_def new_Connection_value
  by (simp add: new_subscriptions_def conn_defs)

lemma createSession_count:
  "disconnected_listener_count (Connection_createSession None w) = disconnected_listener_count w + 1"
  by (simp add: Connection_createSession_def new_Session_def initializeEventListeners_fields
      disconnected_listener_count_def guard_defs)

lemma Session_close_count:
  assumes "Session_isOpen n w"
  shows "disconnected_listener_count (Session_close n None w) = disconnected_listener_count w + 1"
    and "conn_is_open (Session_close n None w) = conn_is_open w"
    and "open_sessions (Session_close n None w) = open_sessions w - {n}"
  using assms
  by (simp_all add: Session_close_def disconnected_listener_count_def guard_defs)

lemma close_sessions_count:
  "isOpen w \<Longrightarrow> distinct ns \<Longrightarrow> set ns \<subseteq> open_sessions w \<Longrightarrow>
   disconnected_listener_count (close_sessions ns w) = disconnected_listener_count w + length ns"
proof (induction ns arbitrary: w)
  case Nil
  then show ?case by (simp add: close_sessions_def)
next
  case (Cons n ns)
  let ?w = "Session_close n None w"
  from Cons.prems have op: "Session_isOpen n w"
    by (simp add: Session_isOpen_def)
  have 1: "isOpen ?w"
    using Cons.prems(1) Session_close_count(2)[OF op] by (simp add: isOpen_def)
  have 2: "set ns \<subseteq> open_sessions ?w"
    using Cons.prems(2,3) Session_close_count(3)[OF op] by auto
  from Cons.prems(2) have 3: "distinct ns" by simp
  have "close_sessions (n # ns) w = close_sessions ns ?w"
    by (simp add: close_sessions_def)
  with Cons.IH[OF 1 3 2] Session_close_count(1)[OF op] show ?case by simp
qed

text \<open>
  Claim C5 on the code: every \<^verbatim>\<open>createSession\<close> call in flight, and every \<^verbatim>\<open>close()\<close> in
  flight on an open session, adds one \<^verbatim>\<open>disconnected\<close> listener of its own to the engine's
  connection, so \<open>k\<close> operations in flight hold \<open>k\<close> listeners more than before.
\<close>

theorem one_disconnected_listener_per_operation:
  "disconnected_listener_count ((Connection_createSession None ^^ k) w)
     = disconnected_listener_count w + k
   \<and> (isOpen w \<and> distinct ns \<and> set ns \<subseteq> open_sessions w \<longrightarrow>
        disconnected_listener_count (close_sessions ns w)
          = disconnected_listener_count w + length ns)"
proof -
  have "disconnected_listener_count ((Connection_createSession None ^^ k) w)
     = disconnected_listener_count w + k"
    by (induction k) (simp_all add: createSession_count)
  with close_sessions_count[of w ns] show ?thesis by blast
qed

theorem one_disconnected_listener_per_operation_witness:
  "disconnected_listener_count open_session = 1
   \<and> disconnected_listener_count ((Connection_createSession None ^^ 1000) open_session) = 1001
   \<and> isOpen open_session \<and> set [0] \<subseteq> open_sessions open_session
   \<and> disconnected_listener_count (close_sessions [0] open_session) = 2"
proof -
  have c: "disconnected_listener_count open_session = 1"
    and o: "isOpen open_session" and m: "open_sessions open_session = {0}"
    by (simp_all add: open_session_value disconnected_listener_count_def isOpen_def)
  show ?thesis
    using c o m one_disconnected_listener_per_operation[of 1000 open_session "[0]"]
    by simp
qed

end
